theory Spec2Isabelle
  imports Complex_Main "HOL-Library.Word" "HOL-Library.AList"
    "HOL-Library.Char_ord" "HOL-Library.List_Lexorder"
begin

unbundle bit_operations_syntax

section \<open>Labeled volumes and images\<close>

text \<open>
  A labeled volume is a 3-D array \<open>data[x, y, z]\<close>. It is held as the list of its axial
  slices: \<open>d ! z\<close> is the 2-D array \<open>data[:, :, z]\<close>, a list of rows of voxels, so that
  \<open>d ! z ! x ! y\<close> is \<open>data[x, y, z]\<close>. Every array operation the tools use
  (elementwise comparison, \<open>np.any\<close> over the two in-plane axes, assignment to a set of
  axial slices, \<open>np.unique\<close>) is written on this layout.

  The tools obtain their integer array from the floating-point data of the file
  (\<open>np.round(img.get_fdata()).astype(np.int16)\<close>, or \<open>astype(np.int32)\<close> in the
  relabeler). The embedding starts at that integer array: the voxels of an input image
  are the machine integers the tool computes on. What the image tools print is left out;
  the warnings of the CSV aggregator are part of its result.
\<close>

type_synonym int16 = "16 word"
type_synonym int32 = "32 word"

type_synonym 'v volume = "'v list list list"

definition vmap :: "('v \<Rightarrow> 'w) \<Rightarrow> 'v volume \<Rightarrow> 'w volume" where
  "vmap f d = map (map (map f)) d"

text \<open>\<open>np.unique(data)\<close>, used only for membership tests: the set of voxel values.\<close>

definition unique :: "'v volume \<Rightarrow> 'v set" where
  "unique d = set (concat (concat d))"

definition vmap2 :: "('u \<Rightarrow> 'v \<Rightarrow> 'w) \<Rightarrow> 'u volume \<Rightarrow> 'v volume \<Rightarrow> 'w volume" where
  "vmap2 f a b = map2 (map2 (map2 f)) a b"

text \<open>\<open>np.any(mask, axis=(0, 1))\<close>: one boolean per axial slice.\<close>

definition any_axis01 :: "bool volume \<Rightarrow> bool list" where
  "any_axis01 m = map (\<lambda>s. list_ex (\<lambda>r. list_ex (\<lambda>b. b) r) s) m"

text \<open>\<open>data[:, :, ~valid_z_slices] = 0\<close>: the slices outside the valid set become zero.\<close>

definition zero_invalid_slices :: "bool list \<Rightarrow> int16 volume \<Rightarrow> int16 volume" where
  "zero_invalid_slices valid d =
     map2 (\<lambda>keep s. if keep then s else map (map (\<lambda>_. 0)) s) valid d"

text \<open>
  An image as the imaging library hands it over: the voxel array, the spatial transform
  (affine) and the header, of which the data type and the voxel spacing (zooms) matter
  here. \<open>nib.Nifti1Image(data, affine, header)\<close> is the construction of such a record
  and \<open>header.set_data_dtype\<close> the update of one header field.
\<close>

datatype dtype = UInt8 | Int16 | Int32 | Float32 | Float64

record 'z header =
  data_dtype :: dtype
  zooms :: 'z

record ('v, 'a, 'z) image =
  dataobj :: "'v volume"
  affine :: 'a
  header :: "'z header"

section \<open>Label splitters\<close>

text \<open>
  The three optional output files of a splitter. A file name that is \<open>None\<close> or empty is
  falsy in Python, and no image is written for it. A splitter leaves through its
  exception handler only when the imaging library raises while reading or writing a
  file; on a loaded 3-D volume nothing raises, and the model is a total function of the
  loaded image.
\<close>

record ('a, 'z) split_outputs =
  cord_img :: "(int16, 'a, 'z) image option"
  canal_img :: "(int16, 'a, 'z) image option"
  combined_img :: "(int16, 'a, 'z) image option"

definition truthy :: "string option \<Rightarrow> bool" where
  "truthy fn = (case fn of None \<Rightarrow> False | Some s \<Rightarrow> s \<noteq> [])"

text \<open>
  The local function \<open>save_mask\<close> (the same in both splitters): binarize with
  \<open>mask_data > 0\<close>, cast to 16-bit integers, force the header's data type and build the
  image from the input's affine and header.
\<close>

definition save_mask ::
  "'a \<Rightarrow> 'z header \<Rightarrow> bool volume \<Rightarrow> string option \<Rightarrow> (int16, 'a, 'z) image option" where
  "save_mask aff hdr mask_data output_filename =
     (case output_filename of
        None \<Rightarrow> None
      | Some fn \<Rightarrow>
          let binary_data = vmap (\<lambda>b. if (0::nat) < of_bool b then (1::int16) else 0) mask_data
          in Some \<lparr>dataobj = binary_data, affine = aff, header = hdr\<lparr>data_dtype := Int16\<rparr>\<rparr>)"

text \<open>The SCT splitter: cord is label 1, canal is label 2.\<close>

definition sct_data_int :: "int16 volume \<Rightarrow> int16 volume" where
  "sct_data_int data_int =
     (if 1 \<in> unique data_int \<and> 2 \<in> unique data_int then
        let slices_with_cord = any_axis01 (vmap (\<lambda>v. v = 1) data_int);
            slices_with_canal = any_axis01 (vmap (\<lambda>v. v = 2) data_int);
            valid_z_slices = map2 (\<and>) slices_with_cord slices_with_canal
        in zero_invalid_slices valid_z_slices data_int
      else data_int)"

definition process_segmentation ::
  "(int16, 'a, 'z) image \<Rightarrow> string option \<Rightarrow> string option \<Rightarrow> string option
     \<Rightarrow> ('a, 'z) split_outputs" where
  "process_segmentation img cord_out canal_out combined_out =
     (let data_int = sct_data_int (dataobj img)
      in \<lparr>cord_img =
            (if truthy cord_out
             then save_mask (affine img) (header img) (vmap (\<lambda>v. v = 1) data_int) cord_out
             else None),
          canal_img =
            (if truthy canal_out
             then save_mask (affine img) (header img) (vmap (\<lambda>v. v = 2) data_int) canal_out
             else None),
          combined_img =
            (if truthy combined_out
             then save_mask (affine img) (header img)
                    (vmap (\<lambda>v. v \<in> set [1, 2]) data_int) combined_out
             else None)\<rparr>)"

text \<open>The SpinePS splitter: cord is label 60, canal is label 61.\<close>

definition spineps_data_int :: "int16 volume \<Rightarrow> int16 volume" where
  "spineps_data_int data_int =
     (if 60 \<in> unique data_int \<and> 61 \<in> unique data_int then
        let slices_with_cord = any_axis01 (vmap (\<lambda>v. v = 60) data_int);
            slices_with_canal = any_axis01 (vmap (\<lambda>v. v = 61) data_int);
            valid_z_slices = map2 (\<and>) slices_with_cord slices_with_canal
        in zero_invalid_slices valid_z_slices data_int
      else data_int)"

definition process_spineps_segmentation ::
  "(int16, 'a, 'z) image \<Rightarrow> string option \<Rightarrow> string option \<Rightarrow> string option
     \<Rightarrow> ('a, 'z) split_outputs" where
  "process_spineps_segmentation img cord_out canal_out combined_out =
     (let data_int = spineps_data_int (dataobj img)
      in \<lparr>cord_img =
            (if truthy cord_out
             then save_mask (affine img) (header img) (vmap (\<lambda>v. v = 60) data_int) cord_out
             else None),
          canal_img =
            (if truthy canal_out
             then save_mask (affine img) (header img) (vmap (\<lambda>v. v = 61) data_int) canal_out
             else None),
          combined_img =
            (if truthy combined_out
             then save_mask (affine img) (header img)
                    (vmap (\<lambda>v. v \<in> set [60, 61]) data_int) combined_out
             else None)\<rparr>)"

text \<open>Voxelwise OR of two masks, and the test that an axial slice is all-zero.\<close>

definition vol_or :: "int16 volume \<Rightarrow> int16 volume \<Rightarrow> int16 volume" where
  "vol_or a b = vmap2 (\<lambda>p q. p OR q) a b"

definition all_zero :: "int16 list list \<Rightarrow> bool" where
  "all_zero s = list_all (\<lambda>r. list_all (\<lambda>v. v = 0) r) s"

text \<open>
  The volume of claim C8: every voxel 60 replaced by 1 and every voxel 61 by 2.
\<close>

definition spineps_to_sct :: "int16 volume \<Rightarrow> int16 volume" where
  "spineps_to_sct d = vmap (\<lambda>v. if v = 60 then 1 else if v = 61 then 2 else v) d"

section \<open>Label range filter\<close>

text \<open>
  \<open>valid\<close> is a set of Python integers, and a 16-bit label belongs to it by its signed
  value. \<open>removed\<close> is a Python set, whose iteration order is not fixed; the loop is
  run here in one fixed order, and its result does not depend on the order
  (\<open>fold_zero_labels\<close>).
\<close>

definition removed_labels :: "int16 volume \<Rightarrow> int \<Rightarrow> int16 list" where
  "removed_labels data max_label =
     (let valid = {1..max_label} \<union> {60}
      in filter (\<lambda>l. sint l \<notin> valid \<and> sint l \<notin> {0}) (remdups (concat (concat data))))"

definition filter_disc_labels ::
  "(int16, 'a, 'z) image \<Rightarrow> int \<Rightarrow> (int16, 'a, 'z) image" where
  "filter_disc_labels img max_label =
     (let data = dataobj img;
          removed = removed_labels data max_label;
          data' = (if removed \<noteq> []
                   then fold (\<lambda>label d. vmap (\<lambda>v. if v = label then 0 else v) d) removed data
                   else data)
      in \<lparr>dataobj = data', affine = affine img, header = header img\<rparr>)"

section \<open>Vertebral relabeler\<close>

definition label_mapping :: "(int \<times> int) list" where
  "label_mapping =
     [(11, 1), (12, 2), (13, 3), (14, 4), (15, 5), (16, 6), (17, 7),
      (21, 8), (22, 9), (23, 10), (24, 11), (25, 12), (26, 13),
      (27, 14), (28, 15), (29, 16), (30, 17), (31, 18), (32, 19),
      (41, 20), (42, 21), (43, 22), (44, 23), (45, 24),
      (50, 25)]"

text \<open>
  One pass of the relabeling loop: \<open>mask = (data == old_label)\<close>, and
  \<open>new_data[mask] = new_label\<close> when the mask is not empty.
\<close>

definition relabel_step :: "int32 volume \<Rightarrow> int \<times> int \<Rightarrow> int32 volume \<Rightarrow> int32 volume" where
  "relabel_step data entry new_data =
     (let old_label = fst entry; new_label = snd entry;
          mask = vmap (\<lambda>v. sint v = old_label) data;
          count = length (filter (\<lambda>b. b) (concat (concat mask)))
      in if 0 < count
         then vmap2 (\<lambda>m n. if m then word_of_int new_label else n) mask new_data
         else new_data)"

definition relabel_nifti :: "(int32, 'a, 'z) image \<Rightarrow> (int16, 'a, 'z) image" where
  "relabel_nifti img =
     (let data = dataobj img;
          new_data = vmap (\<lambda>_. 0) data;
          new_data = fold (relabel_step data) label_mapping new_data
      in \<lparr>dataobj = vmap (\<lambda>v. (scast v :: int16)) new_data,
          affine = affine img, header = header img\<rparr>)"

text \<open>
  The mapping table as the specification words it: 11-17 to 1-7, 21-32 to 8-19,
  41-45 to 20-24, 50 to 25, and 0 for every other code.
\<close>

definition spec_relabel :: "int \<Rightarrow> int" where
  "spec_relabel v =
     (if 11 \<le> v \<and> v \<le> 17 then v - 10
      else if 21 \<le> v \<and> v \<le> 32 then v - 13
      else if 41 \<le> v \<and> v \<le> 45 then v - 21
      else if v = 50 then 25
      else 0)"

section \<open>CSV aggregator\<close>

subsection \<open>Strings\<close>

definition startswith :: "string \<Rightarrow> string \<Rightarrow> bool" where
  "startswith s p = (take (length p) s = p)"

definition endswith :: "string \<Rightarrow> string \<Rightarrow> bool" where
  "endswith s p = (length p \<le> length s \<and> drop (length s - length p) s = p)"

definition is_digit :: "char \<Rightarrow> bool" where
  "is_digit c = (CHR ''0'' \<le> c \<and> c \<le> CHR ''9'')"

definition is_alnum :: "char \<Rightarrow> bool" where
  "is_alnum c =
     ((CHR ''A'' \<le> c \<and> c \<le> CHR ''Z'') \<or> (CHR ''a'' \<le> c \<and> c \<le> CHR ''z'') \<or> is_digit c)"

text \<open>
  \<open>re.search(tok + "([A-Za-z0-9]+)", filename)\<close> for a literal \<open>tok\<close>: the leftmost
  position where \<open>tok\<close> is followed by a letter or digit, and the longest run of letters
  and digits from there (group 1).
\<close>

fun re_search_token :: "string \<Rightarrow> string \<Rightarrow> string option" where
  "re_search_token tok [] = None"
| "re_search_token tok (c # cs) =
     (let rest = drop (length tok) (c # cs)
      in if take (length tok) (c # cs) = tok \<and> rest \<noteq> [] \<and> is_alnum (hd rest)
         then Some (takeWhile is_alnum rest)
         else re_search_token tok cs)"

definition extract_bids_fields :: "string \<Rightarrow> string \<times> string" where
  "extract_bids_fields filename =
     (let sub_match = re_search_token ''sub-'' filename;
          ses_match = re_search_token ''ses-'' filename;
          subject_id = (case sub_match of Some g \<Rightarrow> g | None \<Rightarrow> []);
          session_id = (case ses_match of Some g \<Rightarrow> g | None \<Rightarrow> [])
      in (subject_id, session_id))"

text \<open>Decimal formatting of a Python integer, as in \<open>f"level{level}"\<close>.\<close>

definition digit_char :: "nat \<Rightarrow> char" where
  "digit_char d = char_of (48 + d)"

function str_nat :: "nat \<Rightarrow> string" where
  "str_nat n = (if n < 10 then [digit_char n] else str_nat (n div 10) @ [digit_char (n mod 10)])"
  by pat_completeness auto
termination
  by (relation "measure (\<lambda>n. n)") auto

declare str_nat.simps [simp del]

definition py_str :: "int \<Rightarrow> string" where
  "py_str i = (if i < 0 then CHR ''-'' # str_nat (nat (- i)) else str_nat (nat i))"

text \<open>
  \<open>int(s)\<close> on a string: surrounding whitespace is stripped, then an optional sign and a
  run of decimal digits in which single underscores may separate digits. Anything else
  raises \<open>ValueError\<close> (\<open>None\<close> here). The whitespace that \<open>int\<close> strips is the
  space and the characters 0x09 to 0x0D; the separators 0x1C to 0x1F are not stripped.
  Strings are byte strings: digits and spaces beyond ASCII, and the interpreter's limit
  on the number of digits, are left out.
\<close>

definition is_space :: "char \<Rightarrow> bool" where
  "is_space c = (c \<in> set [CHR 0x20, CHR 0x09, CHR 0x0A, CHR 0x0B, CHR 0x0C, CHR 0x0D])"

definition strip :: "string \<Rightarrow> string" where
  "strip s = rev (dropWhile is_space (rev (dropWhile is_space s)))"

definition digit_val :: "char \<Rightarrow> nat" where
  "digit_val c = of_char c - 48"

fun digits_value :: "nat \<Rightarrow> string \<Rightarrow> nat option" where
  "digits_value acc [] = Some acc"
| "digits_value acc [c] = (if is_digit c then Some (acc * 10 + digit_val c) else None)"
| "digits_value acc (c # d # ds) =
     (if is_digit c then digits_value (acc * 10 + digit_val c) (d # ds)
      else if c = CHR ''_'' \<and> is_digit d then digits_value (acc * 10 + digit_val d) ds
      else None)"

definition nat_literal :: "string \<Rightarrow> nat option" where
  "nat_literal s =
     (case s of [] \<Rightarrow> None | c # cs \<Rightarrow> if is_digit c then digits_value 0 s else None)"

definition int_of_str :: "string \<Rightarrow> int option" where
  "int_of_str s =
     (case strip s of
        [] \<Rightarrow> None
      | c # cs \<Rightarrow>
          if c = CHR ''-'' then map_option (\<lambda>n. - int n) (nat_literal cs)
          else if c = CHR ''+'' then map_option int (nat_literal cs)
          else map_option int (nat_literal (c # cs)))"

text \<open>\<open>s.replace(pat, "")\<close>: every occurrence of \<open>pat\<close>, left to right, is removed.\<close>

function remove_all :: "string \<Rightarrow> string \<Rightarrow> string" where
  "remove_all pat s =
     (if pat = [] \<or> s = [] then s
      else if take (length pat) s = pat then remove_all pat (drop (length pat) s)
      else hd s # remove_all pat (tl s))"
  by pat_completeness auto
termination
  by (relation "measure (\<lambda>(pat, s). length s)") auto

declare remove_all.simps [simp del]

subsection \<open>Cells and the conversion to an integer\<close>

text \<open>
  A cell of a parsed CSV file: an integer, a finite float (by its exact value), the
  missing value NaN, an infinity, a boolean, or a string. \<open>int\<close> truncates a float
  towards zero and raises on NaN, on an infinity and on a string that is no integer
  literal.
\<close>

datatype cell = IntV int | FloatV rat | NaNV | InfV | BoolV bool | StrV string

datatype py_error = ValueError | OverflowError

fun py_int :: "cell \<Rightarrow> py_error + int" where
  "py_int (IntV i) = Inr i"
| "py_int (FloatV q) = Inr (if q < 0 then - \<lfloor>- q\<rfloor> else \<lfloor>q\<rfloor>)"
| "py_int NaNV = Inl ValueError"
| "py_int InfV = Inl OverflowError"
| "py_int (BoolV b) = Inr (if b then 1 else 0)"
| "py_int (StrV s) = (case int_of_str s of None \<Rightarrow> Inl ValueError | Some i \<Rightarrow> Inr i)"

subsection \<open>Parsing one method directory\<close>

text \<open>
  A parsed CSV file is its column names and its data rows; a data row gives a cell for
  every column name. A directory entry is a file name with what \<open>pd.read_csv\<close> made of
  the file, \<open>None\<close> when it raised. A method directory is its listing, \<open>None\<close> when the
  path is no directory.
\<close>

record dataframe =
  columns :: "string list"
  records :: "(string \<Rightarrow> cell) list"

type_synonym csv_file = "string \<times> dataframe option"

datatype warning =
    Directory_not_found
  | Could_not_read string
  | Column_not_found string string "string list"

text \<open>\<open>record.get(key, default)\<close> on a row of a frame with the given columns.\<close>

definition record_get :: "string list \<Rightarrow> (string \<Rightarrow> cell) \<Rightarrow> string \<Rightarrow> cell \<Rightarrow> cell" where
  "record_get cols rec key dflt = (if key \<in> set cols then rec key else dflt)"

definition level_cell :: "string list \<Rightarrow> (string \<Rightarrow> cell) \<Rightarrow> cell" where
  "level_cell cols rec =
     record_get cols rec ''VertLevel'' (record_get cols rec ''vertLevel'' (IntV (- 1)))"

text \<open>
  A Python dict keeps its keys in insertion order, and assigning to a key that is
  present replaces the value in place: an association list under \<open>AList.update\<close>.
\<close>

type_synonym row = "(string \<times> cell) list"

text \<open>The loop over \<open>df.iterrows()\<close>; the first \<open>int\<close> that raises ends it.\<close>

fun pivot_levels ::
  "string \<Rightarrow> string list \<Rightarrow> (string \<Rightarrow> cell) list \<Rightarrow> row \<Rightarrow> py_error + row" where
  "pivot_levels info_column cols [] row = Inr row"
| "pivot_levels info_column cols (rec # rest) row =
     (case py_int (level_cell cols rec) of
        Inl e \<Rightarrow> Inl e
      | Inr level \<Rightarrow>
          pivot_levels info_column cols rest
            (if 0 < level
             then AList.update (''level'' @ py_str level) (rec info_column) row
             else row))"

text \<open>
  The loop over the sorted file names, with the warnings printed so far and the rows
  collected so far. An exception leaves the loop with the warnings already printed.
\<close>

fun parse_files ::
  "string \<Rightarrow> string \<Rightarrow> csv_file list \<Rightarrow> warning list \<Rightarrow> row list
     \<Rightarrow> warning list \<times> (py_error + row list)" where
  "parse_files info_column pattern [] ws rows = (ws, Inr rows)"
| "parse_files info_column pattern ((fname, content) # files) ws rows =
     (if \<not> endswith fname pattern then parse_files info_column pattern files ws rows
      else
        let (subject_id, session_id) = extract_bids_fields fname
        in case content of
             None \<Rightarrow> parse_files info_column pattern files (ws @ [Could_not_read fname]) rows
           | Some df \<Rightarrow>
               if info_column \<notin> set (columns df)
               then parse_files info_column pattern files
                      (ws @ [Column_not_found info_column fname (columns df)]) rows
               else
                 (case pivot_levels info_column (columns df) (records df)
                         [(''subject_id'', StrV subject_id), (''session_id'', StrV session_id)] of
                    Inl e \<Rightarrow> (ws, Inl e)
                  | Inr row \<Rightarrow> parse_files info_column pattern files ws (rows @ [row])))"

text \<open>
  A table: column names and, for every row, one cell per column. \<open>pd.DataFrame(rows)\<close>
  takes its columns from the keys of the dicts in order of first appearance and fills
  a key that a dict lacks with NaN. A column all of whose cells are numbers (integers,
  floats, NaN, infinities) and not all integers becomes a float column: its integers
  are converted to floats. The conversion is exact here; the rounding of an integer
  beyond 2^53 is left out. A column with a string or a boolean among its cells keeps
  its cells as they are.
\<close>

record table =
  tcolumns :: "string list"
  trows :: "cell list list"

definition frame_columns :: "row list \<Rightarrow> string list" where
  "frame_columns rows =
     fold (\<lambda>k acc. if k \<in> set acc then acc else acc @ [k]) (concat (map (map fst) rows)) []"

definition frame_cell :: "row \<Rightarrow> string \<Rightarrow> cell" where
  "frame_cell r c = (case map_of r c of Some v \<Rightarrow> v | None \<Rightarrow> NaNV)"

definition numeric_cell :: "cell \<Rightarrow> bool" where
  "numeric_cell v =
     (case v of
        IntV i \<Rightarrow> True | FloatV q \<Rightarrow> True | NaNV \<Rightarrow> True | InfV \<Rightarrow> True
      | BoolV b \<Rightarrow> False | StrV s \<Rightarrow> False)"

definition int_cell :: "cell \<Rightarrow> bool" where
  "int_cell v = (case v of IntV i \<Rightarrow> True | _ \<Rightarrow> False)"

definition as_float :: "cell \<Rightarrow> cell" where
  "as_float v = (case v of IntV i \<Rightarrow> FloatV (of_int i) | _ \<Rightarrow> v)"

definition frame_value :: "row list \<Rightarrow> row \<Rightarrow> string \<Rightarrow> cell" where
  "frame_value rows r c =
     (let column = map (\<lambda>r'. frame_cell r' c) rows
      in if list_all numeric_cell column \<and> \<not> list_all int_cell column
         then as_float (frame_cell r c)
         else frame_cell r c)"

text \<open>
  \<open>sorted(cs, key=lambda x: int(x.replace("level", "")))\<close>: the keys are computed
  first, the first one that raises ends the call, and the sort is stable.
\<close>

definition level_key :: "string \<Rightarrow> py_error + int" where
  "level_key x = py_int (StrV (remove_all ''level'' x))"

fun sequence_sum :: "('e + 'a) list \<Rightarrow> 'e + 'a list" where
  "sequence_sum [] = Inr []"
| "sequence_sum (x # xs) =
     (case x of
        Inl e \<Rightarrow> Inl e
      | Inr v \<Rightarrow> (case sequence_sum xs of Inl e \<Rightarrow> Inl e | Inr vs \<Rightarrow> Inr (v # vs)))"

definition sorted_by_level :: "string list \<Rightarrow> py_error + string list" where
  "sorted_by_level cs =
     (case sequence_sum (map level_key cs) of
        Inl e \<Rightarrow> Inl e
      | Inr ks \<Rightarrow> Inr (map snd (sort_key fst (zip ks cs))))"

definition empty_frame :: table where
  "empty_frame = \<lparr>tcolumns = [], trows = []\<rparr>"

text \<open>
  The end of \<open>parse_method_directory\<close>, from \<open>result = pd.DataFrame(rows)\<close> on: the
  level columns sorted, a column of empty strings added for every name of \<open>cols\<close> that
  the frame lacks, and the frame restricted to \<open>cols\<close>.
\<close>

definition build_table :: "row list \<Rightarrow> py_error + table" where
  "build_table rows =
     (let result_columns = frame_columns rows
      in case sorted_by_level (filter (\<lambda>c. startswith c ''level'') result_columns) of
           Inl e \<Rightarrow> Inl e
         | Inr level_cols \<Rightarrow>
             (let cols = [''subject_id'', ''session_id''] @ level_cols;
                  added = filter (\<lambda>c. c \<notin> set result_columns) cols;
                  cell_of = (\<lambda>r c. if c \<in> set added then StrV [] else frame_value rows r c)
              in Inr \<lparr>tcolumns = cols, trows = map (\<lambda>r. map (cell_of r) cols) rows\<rparr>))"

definition parse_method_directory ::
  "csv_file list option \<Rightarrow> string \<Rightarrow> string \<Rightarrow> warning list \<times> (py_error + table)" where
  "parse_method_directory method_dir info_column measure_type =
     (let pattern = ''_'' @ measure_type @ ''.csv''
      in case method_dir of
           None \<Rightarrow> ([Directory_not_found], Inr empty_frame)
         | Some listing \<Rightarrow>
             (case parse_files info_column pattern (sort_key fst listing) [] [] of
                (ws, Inl e) \<Rightarrow> (ws, Inl e)
              | (ws, Inr rows) \<Rightarrow>
                  (ws, if rows = [] then Inr empty_frame else build_table rows)))"

text \<open>\<open>df.empty\<close>, by which \<open>main\<close> decides whether the table is written.\<close>

definition df_empty :: "table \<Rightarrow> bool" where
  "df_empty t = (tcolumns t = [] \<or> trows t = [])"

section \<open>Auxiliary notions for the statements\<close>

text \<open>An axial slice contains the label \<open>c\<close>.\<close>

definition has_label :: "int16 \<Rightarrow> int16 list list \<Rightarrow> bool" where
  "has_label c s = list_ex (\<lambda>r. list_ex (\<lambda>v. v = c) r) s"

text \<open>
  Example inputs: a volume of two axial slices holding both pairs of label codes, in
  which the second slice has a cord voxel but no canal voxel, and a volume whose single
  voxel is a cord voxel.
\<close>

definition example_image :: "(int16, nat, nat) image" where
  "example_image =
     \<lparr>dataobj = [[[1, 2, 60, 61]], [[1, 60, 0, 0]]], affine = 7,
      header = \<lparr>data_dtype = Float64, zooms = 3\<rparr>\<rparr>"

definition example_spineps_image :: "(int16, nat, nat) image" where
  "example_spineps_image =
     \<lparr>dataobj = [[[60, 61, 0]], [[60, 0, 5]]], affine = 7,
      header = \<lparr>data_dtype = Float64, zooms = 3\<rparr>\<rparr>"

definition cord_only_image :: "(int16, nat, nat) image" where
  "cord_only_image =
     \<lparr>dataobj = [[[1]]], affine = 7, header = \<lparr>data_dtype = Float64, zooms = 3\<rparr>\<rparr>"

text \<open>
  The test by which the filter removes a label: its value is outside the valid set and
  is not 0.
\<close>

definition out_of_range :: "int \<Rightarrow> int16 \<Rightarrow> bool" where
  "out_of_range max_label l = (sint l \<notin> {1..max_label} \<union> {60} \<and> sint l \<notin> {0})"

text \<open>
  The relabeling loop seen from one voxel \<open>v\<close> of the input: \<open>r\<close> is the value of the
  output voxel so far, and each table entry in turn overwrites it when \<open>v\<close> is its old
  label.
\<close>

fun relabel_voxel :: "(int \<times> int) list \<Rightarrow> int32 \<Rightarrow> int32 \<Rightarrow> int32" where
  "relabel_voxel [] v r = r"
| "relabel_voxel (e # es) v r =
     relabel_voxel es v (if sint v = fst e then word_of_int (snd e) else r)"

text \<open>Two images have the same geometry: the same affine and the same zooms.\<close>

definition same_geometry :: "('v, 'a, 'z) image \<Rightarrow> ('w, 'a, 'z) image \<Rightarrow> bool" where
  "same_geometry i j = (affine j = affine i \<and> zooms (header j) = zooms (header i))"

definition example_vertebrae :: "(int32, nat, nat) image" where
  "example_vertebrae =
     \<lparr>dataobj = [[[11, 21, 50, 60, 0, 33, - 11]]], affine = 7,
      header = \<lparr>data_dtype = Float64, zooms = 3\<rparr>\<rparr>"

text \<open>
  Notions for the statements about the CSV aggregator. The name of a level column; the
  positive levels of the data rows of a file, in row order; the files of a listing that
  contribute a row (the name ends with the suffix, the file was read, and it has the
  configured value column), in the order the loop visits them.
\<close>

definition level_name :: "int \<Rightarrow> string" where
  "level_name n = ''level'' @ py_str n"

definition positive_levels :: "string list \<Rightarrow> (string \<Rightarrow> cell) list \<Rightarrow> int list" where
  "positive_levels cols recs =
     concat (map (\<lambda>rec. case py_int (level_cell cols rec) of
                          Inl e \<Rightarrow> []
                        | Inr n \<Rightarrow> if 0 < n then [n] else []) recs)"

definition contributing :: "string \<Rightarrow> string \<Rightarrow> csv_file list \<Rightarrow> (string \<times> dataframe) list" where
  "contributing info_column pattern files =
     List.map_filter
       (\<lambda>(fname, content).
          case content of
            None \<Rightarrow> None
          | Some df \<Rightarrow>
              if endswith fname pattern \<and> info_column \<in> set (columns df)
              then Some (fname, df) else None)
       files"

text \<open>The dict a file's row starts from.\<close>

definition initial_row :: "string \<Rightarrow> row" where
  "initial_row fname =
     [(''subject_id'', StrV (fst (extract_bids_fields fname))),
      (''session_id'', StrV (snd (extract_bids_fields fname)))]"

text \<open>
  Two directory entries that the loop cannot tell apart: the same name, and either both
  unreadable or both read with the same columns and the same outcome of the row loop.
\<close>

definition file_equiv :: "string \<Rightarrow> csv_file \<Rightarrow> csv_file \<Rightarrow> bool" where
  "file_equiv info_column x y =
     (fst x = fst y \<and>
      (case (snd x, snd y) of
         (None, None) \<Rightarrow> True
       | (Some d, Some d') \<Rightarrow>
           columns d = columns d' \<and>
           (\<forall>row. pivot_levels info_column (columns d) (records d) row
                = pivot_levels info_column (columns d') (records d') row)
       | _ \<Rightarrow> False))"

text \<open>The decimal value of a string of digits.\<close>

definition dec_value :: "nat \<Rightarrow> string \<Rightarrow> nat" where
  "dec_value acc s = foldl (\<lambda>a c. a * 10 + digit_val c) acc s"

text \<open>
  Example files: a data row with the given level and value cells (and a file name
  column, as the measurement files have), and a listing of a method directory with
  three subjects, the third without a positive level, a file that cannot be read and a
  file of another measure type; the values of the first file are integers. In the
  second listing the level column holds a value that is no integer, so all its cells
  are strings; the third is the same file without that row. In the last listing the
  level cell of the first file is missing.
\<close>

definition csv_row :: "cell \<Rightarrow> cell \<Rightarrow> string \<Rightarrow> cell" where
  "csv_row level val =
     (\<lambda>_. NaNV)(''Filename'' := StrV ''t2.nii.gz'', ''VertLevel'' := level, ''MEAN(area)'' := val)"

definition csv_frame :: "(string \<Rightarrow> cell) list \<Rightarrow> dataframe" where
  "csv_frame recs = \<lparr>columns = [''Filename'', ''VertLevel'', ''MEAN(area)''], records = recs\<rparr>"

definition example_listing :: "csv_file list" where
  "example_listing =
     [(''sub-02_ses-1_cord.csv'',
         Some (csv_frame [csv_row (IntV 3) (FloatV 5), csv_row (IntV 10) (FloatV 4),
                          csv_row (IntV 0) (FloatV 9)])),
      (''sub-01_cord.csv'',
         Some (csv_frame [csv_row (IntV 2) (IntV 7), csv_row (IntV 3) (IntV 8)])),
      (''sub-03_cord.csv'', Some (csv_frame [csv_row (IntV (- 1)) (FloatV 6)])),
      (''sub-04_cord.csv'', None),
      (''sub-01_canal.csv'', Some (csv_frame [csv_row (IntV 2) (FloatV 1)]))]"

definition unparsable_listing :: "csv_file list" where
  "unparsable_listing =
     [(''sub-01_cord.csv'',
         Some (csv_frame [csv_row (StrV ''abc'') (FloatV 7), csv_row (StrV ''3'') (FloatV 8)]))]"

definition unparsable_removed_listing :: "csv_file list" where
  "unparsable_removed_listing =
     [(''sub-01_cord.csv'', Some (csv_frame [csv_row (IntV 3) (FloatV 8)]))]"

definition missing_level_listing :: "csv_file list" where
  "missing_level_listing =
     [(''sub-01_cord.csv'', Some (csv_frame [csv_row NaNV (FloatV 7)])),
      (''sub-02_cord.csv'', Some (csv_frame [csv_row (IntV 3) (FloatV 8)]))]"

text \<open>
  The positive levels of a file, and the union of the positive levels of a list of
  files, ascending and without repetition. \<open>file_row\<close> is the outcome of the row loop
  on a file.
\<close>

definition file_row :: "string \<Rightarrow> string \<times> dataframe \<Rightarrow> py_error + row" where
  "file_row info_column f =
     pivot_levels info_column (columns (snd f)) (records (snd f)) (initial_row (fst f))"

definition file_levels :: "string \<times> dataframe \<Rightarrow> int list" where
  "file_levels f = positive_levels (columns (snd f)) (records (snd f))"

definition union_levels :: "(string \<times> dataframe) list \<Rightarrow> int list" where
  "union_levels fs = sort (remdups (concat (map file_levels fs)))"

text \<open>
  What a contributing file's row of the output table must look like: the subject and
  session taken from the file name, one cell per column of the table, and NaN in every
  level column when no data row of the file has a positive level.
\<close>

definition row_of_file :: "table \<Rightarrow> string \<times> dataframe \<Rightarrow> cell list \<Rightarrow> bool" where
  "row_of_file t f cells =
     (take 2 cells = [StrV (fst (extract_bids_fields (fst f))),
                      StrV (snd (extract_bids_fields (fst f)))] \<and>
      length cells = length (tcolumns t) \<and>
      (file_levels f = [] \<longrightarrow> drop 2 cells = replicate (length (tcolumns t) - 2) NaNV))"

text \<open>Every level cell of a file converts to an integer: no \<open>int\<close> of the row loop raises.\<close>

definition levels_convert :: "string \<times> dataframe \<Rightarrow> bool" where
  "levels_convert f =
     list_all (\<lambda>rec. case py_int (level_cell (columns (snd f)) rec) of
                        Inl e \<Rightarrow> False
                      | Inr n \<Rightarrow> True)
       (records (snd f))"

text \<open>The contributing files of a method directory for a measure type.\<close>

definition contributing_files :: "csv_file list \<Rightarrow> string \<Rightarrow> string \<Rightarrow> (string \<times> dataframe) list" where
  "contributing_files listing info_column measure_type =
     contributing info_column (''_'' @ measure_type @ ''.csv'') (sort_key fst listing)"

section \<open>Properties of the label splitters\<close>

subsection \<open>Array lemmas\<close>

lemma map2_same: "map2 f (map g xs) (map h xs) = map (\<lambda>x. f (g x) (h x)) xs"
  by (induction xs) simp_all

lemma vmap2_vmap: "vmap2 f (vmap g d) (vmap h d) = vmap (\<lambda>v. f (g v) (h v)) d"
  by (simp add: vmap2_def vmap_def map2_same)

lemma vmap_vmap: "vmap f (vmap g d) = vmap (\<lambda>v. f (g v)) d"
  by (simp add: vmap_def comp_def)

lemma vmap_cong_unique: "(\<And>v. v \<in> unique d \<Longrightarrow> f v = g v) \<Longrightarrow> vmap f d = vmap g d"
  by (auto simp: vmap_def unique_def)

lemma vmap_nth: "z < length d \<Longrightarrow> vmap f d ! z = map (map f) (d ! z)"
  by (simp add: vmap_def)

lemma unique_vmap: "unique (vmap f d) = f ` unique d"
  by (auto simp: unique_def vmap_def)

lemma list_all2_map_same:
  "list_all2 P (map f xs) (map g xs) = list_all (\<lambda>x. P (f x) (g x)) xs"
  by (induction xs) simp_all

lemma or_of_bool: "(of_bool p :: int16) OR of_bool q = of_bool (p \<or> q)"
  by (cases p; cases q) simp_all

subsection \<open>What the splitters write\<close>

lemma save_mask_Some:
  "save_mask aff hdr m fn = Some i \<Longrightarrow>
     dataobj i = vmap of_bool m \<and> affine i = aff \<and> header i = hdr\<lparr>data_dtype := Int16\<rparr>"
  by (auto simp: save_mask_def vmap_def split: option.splits)

lemma sct_outputs:
  "cord_img (process_segmentation img co ca cb) = Some c \<Longrightarrow>
     dataobj c = vmap (\<lambda>v. of_bool (v = 1)) (sct_data_int (dataobj img))"
  "canal_img (process_segmentation img co ca cb) = Some k \<Longrightarrow>
     dataobj k = vmap (\<lambda>v. of_bool (v = 2)) (sct_data_int (dataobj img))"
  "combined_img (process_segmentation img co ca cb) = Some m \<Longrightarrow>
     dataobj m = vmap (\<lambda>v. of_bool (v = 1 \<or> v = 2)) (sct_data_int (dataobj img))"
  by (auto simp: process_segmentation_def Let_def vmap_vmap dest!: save_mask_Some
      split: if_splits)

lemma spineps_outputs:
  "cord_img (process_spineps_segmentation img co ca cb) = Some c \<Longrightarrow>
     dataobj c = vmap (\<lambda>v. of_bool (v = 60)) (spineps_data_int (dataobj img))"
  "canal_img (process_spineps_segmentation img co ca cb) = Some k \<Longrightarrow>
     dataobj k = vmap (\<lambda>v. of_bool (v = 61)) (spineps_data_int (dataobj img))"
  "combined_img (process_spineps_segmentation img co ca cb) = Some m \<Longrightarrow>
     dataobj m = vmap (\<lambda>v. of_bool (v = 60 \<or> v = 61)) (spineps_data_int (dataobj img))"
  by (auto simp: process_spineps_segmentation_def Let_def vmap_vmap dest!: save_mask_Some
      split: if_splits)

lemmas splitter_eval =
  process_segmentation_def process_spineps_segmentation_def sct_data_int_def
  spineps_data_int_def unique_def truthy_def save_mask_def vmap_def vmap2_def
  any_axis01_def zero_invalid_slices_def vol_or_def all_zero_def
  example_image_def example_spineps_image_def cord_only_image_def

subsection \<open>The combined mask\<close>

text \<open>
  Claim C2. For each label splitter and every input volume, whatever labels it holds:
  when the cord, canal and combined masks are written, the combined mask is the
  voxelwise OR of the cord mask and the canal mask.
\<close>

theorem combined_is_or:
  "(cord_img (process_segmentation img co ca cb) = Some c \<and>
    canal_img (process_segmentation img co ca cb) = Some k \<and>
    combined_img (process_segmentation img co ca cb) = Some m
      \<longrightarrow> dataobj m = vol_or (dataobj c) (dataobj k)) \<and>
   (cord_img (process_spineps_segmentation img co ca cb) = Some c' \<and>
    canal_img (process_spineps_segmentation img co ca cb) = Some k' \<and>
    combined_img (process_spineps_segmentation img co ca cb) = Some m'
      \<longrightarrow> dataobj m' = vol_or (dataobj c') (dataobj k'))"
proof (intro conjI impI; elim conjE)
  assume "cord_img (process_segmentation img co ca cb) = Some c"
    and "canal_img (process_segmentation img co ca cb) = Some k"
    and "combined_img (process_segmentation img co ca cb) = Some m"
  then show "dataobj m = vol_or (dataobj c) (dataobj k)"
    by (simp add: sct_outputs vol_or_def vmap2_vmap or_of_bool)
next
  assume "cord_img (process_spineps_segmentation img co ca cb) = Some c'"
    and "canal_img (process_spineps_segmentation img co ca cb) = Some k'"
    and "combined_img (process_spineps_segmentation img co ca cb) = Some m'"
  then show "dataobj m' = vol_or (dataobj c') (dataobj k')"
    by (simp add: spineps_outputs vol_or_def vmap2_vmap or_of_bool)
qed

theorem combined_is_or_witness:
  "cord_img (process_segmentation example_image (Some ''a'') (Some ''b'') (Some ''c''))
     = Some \<lparr>dataobj = [[[1, 0, 0, 0]], [[0, 0, 0, 0]]], affine = 7,
             header = \<lparr>data_dtype = Int16, zooms = 3\<rparr>\<rparr> \<and>
   canal_img (process_segmentation example_image (Some ''a'') (Some ''b'') (Some ''c''))
     = Some \<lparr>dataobj = [[[0, 1, 0, 0]], [[0, 0, 0, 0]]], affine = 7,
             header = \<lparr>data_dtype = Int16, zooms = 3\<rparr>\<rparr> \<and>
   combined_img (process_segmentation example_image (Some ''a'') (Some ''b'') (Some ''c''))
     = Some \<lparr>dataobj = [[[1, 1, 0, 0]], [[0, 0, 0, 0]]], affine = 7,
             header = \<lparr>data_dtype = Int16, zooms = 3\<rparr>\<rparr> \<and>
   [[[1, 1, 0, 0]], [[0, 0, 0, 0]]]
     = vol_or [[[1, 0, 0, 0]], [[0, 0, 0, 0]]] [[[0, 1, 0, 0]], [[0, 0, 0, 0]]] \<and>
   cord_img (process_spineps_segmentation example_image (Some ''a'') (Some ''b'') (Some ''c''))
     = Some \<lparr>dataobj = [[[0, 0, 1, 0]], [[0, 0, 0, 0]]], affine = 7,
             header = \<lparr>data_dtype = Int16, zooms = 3\<rparr>\<rparr> \<and>
   canal_img (process_spineps_segmentation example_image (Some ''a'') (Some ''b'') (Some ''c''))
     = Some \<lparr>dataobj = [[[0, 0, 0, 1]], [[0, 0, 0, 0]]], affine = 7,
             header = \<lparr>data_dtype = Int16, zooms = 3\<rparr>\<rparr> \<and>
   combined_img (process_spineps_segmentation example_image (Some ''a'') (Some ''b'') (Some ''c''))
     = Some \<lparr>dataobj = [[[0, 0, 1, 1]], [[0, 0, 0, 0]]], affine = 7,
             header = \<lparr>data_dtype = Int16, zooms = 3\<rparr>\<rparr> \<and>
   [[[0, 0, 1, 1]], [[0, 0, 0, 0]]]
     = vol_or [[[0, 0, 1, 0]], [[0, 0, 0, 0]]] [[[0, 0, 0, 1]], [[0, 0, 0, 0]]]"
  using combined_is_or [of example_image "Some ''a''" "Some ''b''" "Some ''c''"
      "\<lparr>dataobj = [[[1, 0, 0, 0]], [[0, 0, 0, 0]]], affine = 7,
        header = \<lparr>data_dtype = Int16, zooms = 3\<rparr>\<rparr>"
      "\<lparr>dataobj = [[[0, 1, 0, 0]], [[0, 0, 0, 0]]], affine = 7,
        header = \<lparr>data_dtype = Int16, zooms = 3\<rparr>\<rparr>"
      "\<lparr>dataobj = [[[1, 1, 0, 0]], [[0, 0, 0, 0]]], affine = 7,
        header = \<lparr>data_dtype = Int16, zooms = 3\<rparr>\<rparr>"
      "\<lparr>dataobj = [[[0, 0, 1, 0]], [[0, 0, 0, 0]]], affine = 7,
        header = \<lparr>data_dtype = Int16, zooms = 3\<rparr>\<rparr>"
      "\<lparr>dataobj = [[[0, 0, 0, 1]], [[0, 0, 0, 0]]], affine = 7,
        header = \<lparr>data_dtype = Int16, zooms = 3\<rparr>\<rparr>"
      "\<lparr>dataobj = [[[0, 0, 1, 1]], [[0, 0, 0, 0]]], affine = 7,
        header = \<lparr>data_dtype = Int16, zooms = 3\<rparr>\<rparr>"]
  by (simp add: splitter_eval)

subsection \<open>Disjoint masks\<close>

lemma disjoint_vmap:
  "a \<noteq> b \<Longrightarrow>
   list_all2 (list_all2 (list_all2 (\<lambda>p q. \<not> (p = (1::int16) \<and> q = (1::int16)))))
     (vmap (\<lambda>v. of_bool (v = a)) d) (vmap (\<lambda>v. of_bool (v = b)) d)"
  by (simp add: vmap_def list_all2_map_same list_all_iff)

text \<open>
  Claim C9. For each label splitter, every input volume and every voxel: the cord mask
  and the canal mask are never both 1 at that voxel. The two masks have the same shape,
  and at no position are both entries 1.
\<close>

theorem masks_disjoint:
  "(cord_img (process_segmentation img co ca cb) = Some c \<and>
    canal_img (process_segmentation img co ca cb) = Some k
      \<longrightarrow> list_all2 (list_all2 (list_all2 (\<lambda>p q. \<not> (p = 1 \<and> q = 1))))
            (dataobj c) (dataobj k)) \<and>
   (cord_img (process_spineps_segmentation img co ca cb) = Some c' \<and>
    canal_img (process_spineps_segmentation img co ca cb) = Some k'
      \<longrightarrow> list_all2 (list_all2 (list_all2 (\<lambda>p q. \<not> (p = 1 \<and> q = 1))))
            (dataobj c') (dataobj k'))"
proof (intro conjI impI; elim conjE)
  assume "cord_img (process_segmentation img co ca cb) = Some c"
    and "canal_img (process_segmentation img co ca cb) = Some k"
  then show "list_all2 (list_all2 (list_all2 (\<lambda>p q. \<not> (p = 1 \<and> q = 1))))
      (dataobj c) (dataobj k)"
    using disjoint_vmap [of 1 2 "sct_data_int (dataobj img)"] by (simp add: sct_outputs)
next
  assume "cord_img (process_spineps_segmentation img co ca cb) = Some c'"
    and "canal_img (process_spineps_segmentation img co ca cb) = Some k'"
  then show "list_all2 (list_all2 (list_all2 (\<lambda>p q. \<not> (p = 1 \<and> q = 1))))
      (dataobj c') (dataobj k')"
    using disjoint_vmap [of 60 61 "spineps_data_int (dataobj img)"]
    by (simp add: spineps_outputs)
qed

theorem masks_disjoint_witness:
  "cord_img (process_segmentation example_image (Some ''a'') (Some ''b'') None)
     = Some \<lparr>dataobj = [[[1, 0, 0, 0]], [[0, 0, 0, 0]]], affine = 7,
             header = \<lparr>data_dtype = Int16, zooms = 3\<rparr>\<rparr> \<and>
   canal_img (process_segmentation example_image (Some ''a'') (Some ''b'') None)
     = Some \<lparr>dataobj = [[[0, 1, 0, 0]], [[0, 0, 0, 0]]], affine = 7,
             header = \<lparr>data_dtype = Int16, zooms = 3\<rparr>\<rparr> \<and>
   list_all2 (list_all2 (list_all2 (\<lambda>p q. \<not> (p = (1::int16) \<and> q = (1::int16)))))
     [[[1, 0, 0, 0]], [[0, 0, 0, 0]]] [[[0, 1, 0, 0]], [[0, 0, 0, 0]]] \<and>
   cord_img (process_spineps_segmentation example_image (Some ''a'') (Some ''b'') None)
     = Some \<lparr>dataobj = [[[0, 0, 1, 0]], [[0, 0, 0, 0]]], affine = 7,
             header = \<lparr>data_dtype = Int16, zooms = 3\<rparr>\<rparr> \<and>
   canal_img (process_spineps_segmentation example_image (Some ''a'') (Some ''b'') None)
     = Some \<lparr>dataobj = [[[0, 0, 0, 1]], [[0, 0, 0, 0]]], affine = 7,
             header = \<lparr>data_dtype = Int16, zooms = 3\<rparr>\<rparr> \<and>
   list_all2 (list_all2 (list_all2 (\<lambda>p q. \<not> (p = (1::int16) \<and> q = (1::int16)))))
     [[[0, 0, 1, 0]], [[0, 0, 0, 0]]] [[[0, 0, 0, 1]], [[0, 0, 0, 0]]]"
  using masks_disjoint [of example_image "Some ''a''" "Some ''b''" None
      "\<lparr>dataobj = [[[1, 0, 0, 0]], [[0, 0, 0, 0]]], affine = 7,
        header = \<lparr>data_dtype = Int16, zooms = 3\<rparr>\<rparr>"
      "\<lparr>dataobj = [[[0, 1, 0, 0]], [[0, 0, 0, 0]]], affine = 7,
        header = \<lparr>data_dtype = Int16, zooms = 3\<rparr>\<rparr>"
      "\<lparr>dataobj = [[[0, 0, 1, 0]], [[0, 0, 0, 0]]], affine = 7,
        header = \<lparr>data_dtype = Int16, zooms = 3\<rparr>\<rparr>"
      "\<lparr>dataobj = [[[0, 0, 0, 1]], [[0, 0, 0, 0]]], affine = 7,
        header = \<lparr>data_dtype = Int16, zooms = 3\<rparr>\<rparr>"]
  by (simp add: splitter_eval)

subsection \<open>The Z-range intersection\<close>

lemma has_label_iff: "has_label c s \<longleftrightarrow> (\<exists>r\<in>set s. c \<in> set r)"
  by (auto simp: has_label_def list_ex_iff)

lemma any_axis01_eq: "any_axis01 (vmap (\<lambda>v. v = c) d) = map (has_label c) d"
  by (auto simp: any_axis01_def vmap_def has_label_iff list_ex_iff)

lemma zero_invalid_slices_nth:
  "z < length d \<Longrightarrow> length valid = length d \<Longrightarrow>
   zero_invalid_slices valid d ! z = (if valid ! z then d ! z else map (map (\<lambda>_. 0)) (d ! z))"
  by (simp add: zero_invalid_slices_def)

lemma length_zero_invalid_slices:
  "length valid = length d \<Longrightarrow> length (zero_invalid_slices valid d) = length d"
  by (simp add: zero_invalid_slices_def)

lemma intersect_nth:
  assumes "z < length d"
  shows "zero_invalid_slices
           (map2 (\<and>) (any_axis01 (vmap (\<lambda>v. v = a) d)) (any_axis01 (vmap (\<lambda>v. v = b) d))) d ! z
     = (if has_label a (d ! z) \<and> has_label b (d ! z) then d ! z
        else map (map (\<lambda>_. 0)) (d ! z))"
  using assms by (simp add: any_axis01_eq zero_invalid_slices_nth)

lemma all_zero_mask: "all_zero (map (map (\<lambda>v. of_bool (v = c))) s) = (\<not> has_label c s)"
  by (auto simp: all_zero_def has_label_iff list_all_iff)

lemma has_label_zeros: "c \<noteq> 0 \<Longrightarrow> \<not> has_label c (map (map (\<lambda>_. 0)) s)"
  by (auto simp: has_label_iff)

lemma length_sct_data_int: "length (sct_data_int d) = length d"
  by (simp add: sct_data_int_def Let_def length_zero_invalid_slices any_axis01_eq)

lemma length_spineps_data_int: "length (spineps_data_int d) = length d"
  by (simp add: spineps_data_int_def Let_def length_zero_invalid_slices any_axis01_eq)

lemma unique_has_label: "c \<in> unique d \<longleftrightarrow> (\<exists>s\<in>set d. has_label c s)"
  by (auto simp: unique_def has_label_iff)

lemma sct_slice_both:
  assumes "1 \<in> unique d" "2 \<in> unique d" "z < length d"
  shows "has_label 1 (sct_data_int d ! z) = has_label 2 (sct_data_int d ! z)"
  using assms by (simp add: sct_data_int_def Let_def intersect_nth has_label_zeros)

lemma sct_slice_neither:
  assumes "1 \<notin> unique d" "2 \<notin> unique d" "z < length d"
  shows "has_label 1 (sct_data_int d ! z) = has_label 2 (sct_data_int d ! z)"
  using assms by (auto simp: sct_data_int_def unique_has_label)

lemma spineps_slice_both:
  assumes "60 \<in> unique d" "61 \<in> unique d" "z < length d"
  shows "has_label 60 (spineps_data_int d ! z) = has_label 61 (spineps_data_int d ! z)"
  using assms by (simp add: spineps_data_int_def Let_def intersect_nth has_label_zeros)

lemma spineps_slice_neither:
  assumes "60 \<notin> unique d" "61 \<notin> unique d" "z < length d"
  shows "has_label 60 (spineps_data_int d ! z) = has_label 61 (spineps_data_int d ! z)"
  using assms by (auto simp: spineps_data_int_def unique_has_label)

text \<open>
  Claim C1, as stated, fails: the intersection step runs only when both label codes occur
  in the volume. On a volume whose single voxel is a cord voxel the SCT splitter writes a
  cord mask whose slice 0 is not zero and a canal mask whose slice 0 is zero.
\<close>

theorem z_range_law_counterexample:
  "cord_img (process_segmentation cord_only_image (Some ''cord.nii'') (Some ''canal.nii'') None)
     = Some \<lparr>dataobj = [[[1]]], affine = 7, header = \<lparr>data_dtype = Int16, zooms = 3\<rparr>\<rparr> \<and>
   canal_img (process_segmentation cord_only_image (Some ''cord.nii'') (Some ''canal.nii'') None)
     = Some \<lparr>dataobj = [[[0]]], affine = 7, header = \<lparr>data_dtype = Int16, zooms = 3\<rparr>\<rparr> \<and>
   all_zero ([[[0]]] ! 0) \<and> \<not> all_zero ([[[1]]] ! 0)"
  by (simp add: splitter_eval)

text \<open>
  Claim C1, amended. For each label splitter, every input volume in which both label codes
  occur, or neither, and every axial index \<open>z\<close>: slice \<open>z\<close> of the canal mask is all-zero
  if and only if slice \<open>z\<close> of the cord mask is all-zero.
\<close>

theorem z_range_law:
  "(cord_img (process_segmentation img co ca cb) = Some c \<and>
    canal_img (process_segmentation img co ca cb) = Some k \<and>
    (1 \<in> unique (dataobj img) \<longleftrightarrow> 2 \<in> unique (dataobj img)) \<and> z < length (dataobj img)
      \<longrightarrow> (all_zero (dataobj k ! z) \<longleftrightarrow> all_zero (dataobj c ! z))) \<and>
   (cord_img (process_spineps_segmentation img co ca cb) = Some c' \<and>
    canal_img (process_spineps_segmentation img co ca cb) = Some k' \<and>
    (60 \<in> unique (dataobj img) \<longleftrightarrow> 61 \<in> unique (dataobj img)) \<and> z < length (dataobj img)
      \<longrightarrow> (all_zero (dataobj k' ! z) \<longleftrightarrow> all_zero (dataobj c' ! z)))"
proof (intro conjI impI; elim conjE)
  assume c: "cord_img (process_segmentation img co ca cb) = Some c"
    and k: "canal_img (process_segmentation img co ca cb) = Some k"
    and p: "1 \<in> unique (dataobj img) \<longleftrightarrow> 2 \<in> unique (dataobj img)"
    and z: "z < length (dataobj img)"
  have "has_label 1 (sct_data_int (dataobj img) ! z) = has_label 2 (sct_data_int (dataobj img) ! z)"
    using p z sct_slice_both [of "dataobj img" z] sct_slice_neither [of "dataobj img" z] by blast
  then show "all_zero (dataobj k ! z) \<longleftrightarrow> all_zero (dataobj c ! z)"
    using z by (simp add: sct_outputs(1) [OF c] sct_outputs(2) [OF k] vmap_nth
        length_sct_data_int all_zero_mask)
next
  assume c: "cord_img (process_spineps_segmentation img co ca cb) = Some c'"
    and k: "canal_img (process_spineps_segmentation img co ca cb) = Some k'"
    and p: "60 \<in> unique (dataobj img) \<longleftrightarrow> 61 \<in> unique (dataobj img)"
    and z: "z < length (dataobj img)"
  have "has_label 60 (spineps_data_int (dataobj img) ! z)
      = has_label 61 (spineps_data_int (dataobj img) ! z)"
    using p z spineps_slice_both [of "dataobj img" z] spineps_slice_neither [of "dataobj img" z]
    by blast
  then show "all_zero (dataobj k' ! z) \<longleftrightarrow> all_zero (dataobj c' ! z)"
    using z by (simp add: spineps_outputs(1) [OF c] spineps_outputs(2) [OF k] vmap_nth
        length_spineps_data_int all_zero_mask)
qed

theorem z_range_law_witness:
  "cord_img (process_segmentation example_image (Some ''a'') (Some ''b'') None)
     = Some \<lparr>dataobj = [[[1, 0, 0, 0]], [[0, 0, 0, 0]]], affine = 7,
             header = \<lparr>data_dtype = Int16, zooms = 3\<rparr>\<rparr> \<and>
   canal_img (process_segmentation example_image (Some ''a'') (Some ''b'') None)
     = Some \<lparr>dataobj = [[[0, 1, 0, 0]], [[0, 0, 0, 0]]], affine = 7,
             header = \<lparr>data_dtype = Int16, zooms = 3\<rparr>\<rparr> \<and>
   (1 \<in> unique (dataobj example_image) \<longleftrightarrow> 2 \<in> unique (dataobj example_image)) \<and>
   (1::nat) < length (dataobj example_image) \<and>
   (all_zero ([[[0, 1, 0, 0]], [[0, 0, 0, 0]]] ! 1)
      \<longleftrightarrow> all_zero ([[[1, 0, 0, 0]], [[0, 0, 0, 0]]] ! 1)) \<and>
   cord_img (process_spineps_segmentation example_image (Some ''a'') (Some ''b'') None)
     = Some \<lparr>dataobj = [[[0, 0, 1, 0]], [[0, 0, 0, 0]]], affine = 7,
             header = \<lparr>data_dtype = Int16, zooms = 3\<rparr>\<rparr> \<and>
   canal_img (process_spineps_segmentation example_image (Some ''a'') (Some ''b'') None)
     = Some \<lparr>dataobj = [[[0, 0, 0, 1]], [[0, 0, 0, 0]]], affine = 7,
             header = \<lparr>data_dtype = Int16, zooms = 3\<rparr>\<rparr> \<and>
   (60 \<in> unique (dataobj example_image) \<longleftrightarrow> 61 \<in> unique (dataobj example_image)) \<and>
   (all_zero ([[[0, 0, 0, 1]], [[0, 0, 0, 0]]] ! 1)
      \<longleftrightarrow> all_zero ([[[0, 0, 1, 0]], [[0, 0, 0, 0]]] ! 1))"
  using z_range_law [of example_image "Some ''a''" "Some ''b''" None
      "\<lparr>dataobj = [[[1, 0, 0, 0]], [[0, 0, 0, 0]]], affine = 7,
        header = \<lparr>data_dtype = Int16, zooms = 3\<rparr>\<rparr>"
      "\<lparr>dataobj = [[[0, 1, 0, 0]], [[0, 0, 0, 0]]], affine = 7,
        header = \<lparr>data_dtype = Int16, zooms = 3\<rparr>\<rparr>" 1
      "\<lparr>dataobj = [[[0, 0, 1, 0]], [[0, 0, 0, 0]]], affine = 7,
        header = \<lparr>data_dtype = Int16, zooms = 3\<rparr>\<rparr>"
      "\<lparr>dataobj = [[[0, 0, 0, 1]], [[0, 0, 0, 0]]], affine = 7,
        header = \<lparr>data_dtype = Int16, zooms = 3\<rparr>\<rparr>"]
  by (simp add: splitter_eval)

subsection \<open>The two splitters compared\<close>

lemma zero_invalid_slices_vmap:
  "f 0 = 0 \<Longrightarrow> zero_invalid_slices valid (vmap f d) = vmap f (zero_invalid_slices valid d)"
  unfolding zero_invalid_slices_def vmap_def
  by (induction valid d rule: list_induct2') (simp_all add: comp_def)

lemma unique_zero_invalid_slices: "unique (zero_invalid_slices valid d) \<subseteq> insert 0 (unique d)"
  by (auto simp: zero_invalid_slices_def unique_def split: if_splits dest: set_zip_rightD)

lemma unique_spineps_data_int: "unique (spineps_data_int d) \<subseteq> insert 0 (unique d)"
  using unique_zero_invalid_slices by (auto simp: spineps_data_int_def Let_def)

lemma spineps_to_sct_eq:
  assumes "1 \<notin> unique d" "2 \<notin> unique d"
  shows "vmap (\<lambda>v. v = 1) (spineps_to_sct d) = vmap (\<lambda>v. v = 60) d"
    and "vmap (\<lambda>v. v = 2) (spineps_to_sct d) = vmap (\<lambda>v. v = 61) d"
    and "vmap (\<lambda>v. v = 1 \<or> v = 2) (spineps_to_sct d) = vmap (\<lambda>v. v = 60 \<or> v = 61) d"
    and "1 \<in> unique (spineps_to_sct d) \<longleftrightarrow> 60 \<in> unique d"
    and "2 \<in> unique (spineps_to_sct d) \<longleftrightarrow> 61 \<in> unique d"
proof -
  show "vmap (\<lambda>v. v = 1) (spineps_to_sct d) = vmap (\<lambda>v. v = 60) d"
    unfolding spineps_to_sct_def vmap_vmap using assms by (intro vmap_cong_unique) auto
  show "vmap (\<lambda>v. v = 2) (spineps_to_sct d) = vmap (\<lambda>v. v = 61) d"
    unfolding spineps_to_sct_def vmap_vmap using assms by (intro vmap_cong_unique) auto
  show "vmap (\<lambda>v. v = 1 \<or> v = 2) (spineps_to_sct d) = vmap (\<lambda>v. v = 60 \<or> v = 61) d"
    unfolding spineps_to_sct_def vmap_vmap using assms by (intro vmap_cong_unique) auto
  show "1 \<in> unique (spineps_to_sct d) \<longleftrightarrow> 60 \<in> unique d"
    using assms by (auto simp: spineps_to_sct_def unique_vmap split: if_splits)
  show "2 \<in> unique (spineps_to_sct d) \<longleftrightarrow> 61 \<in> unique d"
    using assms by (auto simp: spineps_to_sct_def unique_vmap split: if_splits)
qed

lemma sct_data_int_spineps_to_sct:
  assumes "1 \<notin> unique d" "2 \<notin> unique d"
  shows "sct_data_int (spineps_to_sct d) = spineps_to_sct (spineps_data_int d)"
proof -
  have "zero_invalid_slices valid (spineps_to_sct d) = spineps_to_sct (zero_invalid_slices valid d)"
    for valid
    unfolding spineps_to_sct_def by (rule zero_invalid_slices_vmap) simp
  then show ?thesis
    by (simp add: sct_data_int_def spineps_data_int_def spineps_to_sct_eq [OF assms])
qed

text \<open>
  Claim C8. For every input volume with no voxel 1 or 2, the SpinePS splitter writes the
  cord, canal and combined masks that the SCT splitter writes for the volume in which
  every voxel 60 is replaced by 1 and every voxel 61 by 2.
\<close>

theorem splitters_same_algorithm:
  assumes "1 \<notin> unique (dataobj img)" and "2 \<notin> unique (dataobj img)"
  shows "process_spineps_segmentation img cord_out canal_out combined_out =
         process_segmentation (img\<lparr>dataobj := spineps_to_sct (dataobj img)\<rparr>)
           cord_out canal_out combined_out"
proof -
  let ?e = "spineps_data_int (dataobj img)"
  have e: "1 \<notin> unique ?e" "2 \<notin> unique ?e"
    using assms unique_spineps_data_int [of "dataobj img"] by auto
  show ?thesis
    by (simp add: process_spineps_segmentation_def process_segmentation_def Let_def
        sct_data_int_spineps_to_sct [OF assms] spineps_to_sct_eq(1-3) [OF e])
qed

theorem splitters_same_algorithm_witness:
  "1 \<notin> unique (dataobj example_spineps_image) \<and> 2 \<notin> unique (dataobj example_spineps_image) \<and>
   process_spineps_segmentation example_spineps_image (Some ''a'') (Some ''b'') (Some ''c'') =
   process_segmentation
     (example_spineps_image\<lparr>dataobj := spineps_to_sct (dataobj example_spineps_image)\<rparr>)
     (Some ''a'') (Some ''b'') (Some ''c'') \<and>
   cord_img (process_spineps_segmentation example_spineps_image (Some ''a'') (Some ''b'') (Some ''c''))
     = Some \<lparr>dataobj = [[[1, 0, 0]], [[0, 0, 0]]], affine = 7,
             header = \<lparr>data_dtype = Int16, zooms = 3\<rparr>\<rparr>"
  using splitters_same_algorithm [of example_spineps_image "Some ''a''" "Some ''b''" "Some ''c''"]
  by (simp add: splitter_eval spineps_to_sct_def)

section \<open>Properties of the label range filter\<close>

lemma fold_zero_labels:
  "fold (\<lambda>label d. vmap (\<lambda>v. if v = label then 0 else v) d) ls d
     = vmap (\<lambda>v. if v \<in> set ls then (0::int16) else v) d"
proof (induction ls arbitrary: d)
  case Nil
  then show ?case by (simp add: vmap_def)
next
  case (Cons l ls)
  show ?case
    by (simp add: Cons.IH vmap_vmap) (rule vmap_cong_unique, auto)
qed

lemma set_removed_labels:
  "set (removed_labels d m) = {l \<in> unique d. out_of_range m l}"
  by (auto simp: removed_labels_def unique_def out_of_range_def)

lemma filter_data:
  "dataobj (filter_disc_labels img m)
     = vmap (\<lambda>v. if out_of_range m v then 0 else v) (dataobj img)"
proof -
  have "dataobj (filter_disc_labels img m)
      = vmap (\<lambda>v. if v \<in> set (removed_labels (dataobj img) m) then 0 else v) (dataobj img)"
    by (simp add: filter_disc_labels_def Let_def fold_zero_labels vmap_def)
  also have "\<dots> = vmap (\<lambda>v. if out_of_range m v then 0 else v) (dataobj img)"
    by (rule vmap_cong_unique) (simp add: set_removed_labels)
  finally show ?thesis .
qed

lemma out_of_range_zero: "\<not> out_of_range m 0"
  by (simp add: out_of_range_def)

lemma filter_frame:
  "affine (filter_disc_labels img m) = affine img"
  "header (filter_disc_labels img m) = header img"
  by (simp_all add: filter_disc_labels_def Let_def)

text \<open>
  Claim C5. For every input volume and every \<open>max_label\<close>, filtering twice with the same
  \<open>max_label\<close> gives the image that filtering once gives.
\<close>

theorem filter_idempotent:
  "filter_disc_labels (filter_disc_labels img max_label) max_label
     = filter_disc_labels img max_label"
proof -
  have "(if out_of_range max_label (if out_of_range max_label v then 0 else v) then 0
         else if out_of_range max_label v then 0 else v)
      = (if out_of_range max_label v then 0 else v)" for v
    by (simp add: out_of_range_zero)
  then have "dataobj (filter_disc_labels (filter_disc_labels img max_label) max_label)
      = dataobj (filter_disc_labels img max_label)"
    by (simp add: filter_data [of "filter_disc_labels img max_label"] filter_data [of img]
        vmap_vmap)
  then show ?thesis
    by (simp add: image.equality filter_frame)
qed

text \<open>
  At the example image, with \<open>max_label = 21\<close>: the label 61 is zeroed and 1, 2 and 60
  are kept.
\<close>

theorem filter_idempotent_witness:
  "dataobj (filter_disc_labels example_image 21) = [[[1, 2, 60, 0]], [[1, 60, 0, 0]]] \<and>
   filter_disc_labels (filter_disc_labels example_image 21) 21
     = filter_disc_labels example_image 21"
  using filter_idempotent [of example_image 21]
  by (simp add: filter_data out_of_range_def example_image_def vmap_def)

section \<open>Properties of the vertebral relabeler\<close>

lemma count_true_zero:
  "length (filter (\<lambda>b. b) (concat (concat (vmap p d)))) = 0 \<longleftrightarrow> (\<forall>v\<in>unique d. \<not> p v)"
  by (auto simp: vmap_def unique_def filter_empty_conv)

lemma relabel_step_vmap:
  "relabel_step data entry (vmap g data)
     = vmap (\<lambda>v. if sint v = fst entry then word_of_int (snd entry) else g v) data"
proof (cases "\<forall>v\<in>unique data. sint v \<noteq> fst entry")
  case True
  then have "relabel_step data entry (vmap g data) = vmap g data"
    using count_true_zero [of "\<lambda>v. sint v = fst entry" data]
    by (simp add: relabel_step_def Let_def)
  also have "\<dots> = vmap (\<lambda>v. if sint v = fst entry then word_of_int (snd entry) else g v) data"
    using True by (intro vmap_cong_unique) auto
  finally show ?thesis .
next
  case False
  then have "0 < length (filter (\<lambda>b. b) (concat (concat (vmap (\<lambda>v. sint v = fst entry) data))))"
    using count_true_zero [of "\<lambda>v. sint v = fst entry" data] by auto
  then show ?thesis
    by (simp add: relabel_step_def Let_def vmap2_vmap)
qed

lemma fold_relabel_step:
  "fold (relabel_step data) tbl (vmap g data) = vmap (\<lambda>v. relabel_voxel tbl v (g v)) data"
proof (induction tbl arbitrary: g)
  case Nil
  then show ?case by simp
next
  case (Cons e es)
  show ?case by (simp add: relabel_step_vmap Cons.IH)
qed

lemma relabel_voxel_no_key:
  "sint v \<notin> fst ` set tbl \<Longrightarrow> relabel_voxel tbl v r = r"
  by (induction tbl arbitrary: r) auto

lemma relabel_voxel_map_of:
  "distinct (map fst tbl) \<Longrightarrow>
   relabel_voxel tbl v r = (case map_of tbl (sint v) of Some n \<Rightarrow> word_of_int n | None \<Rightarrow> r)"
proof (induction tbl arbitrary: r)
  case Nil
  then show ?case by simp
next
  case (Cons e es)
  show ?case
  proof (cases "sint v = fst e")
    case True
    then have "sint v \<notin> fst ` set es" using Cons.prems by auto
    then show ?thesis using True by (cases e) (simp add: relabel_voxel_no_key)
  next
    case False
    then show ?thesis using Cons by (cases e) auto
  qed
qed

lemma map_of_label_mapping:
  "(case map_of label_mapping x of Some n \<Rightarrow> n | None \<Rightarrow> 0) = spec_relabel x"
proof -
  have "x < 11 \<or> x = 11 \<or> x = 12 \<or> x = 13 \<or> x = 14 \<or> x = 15 \<or> x = 16 \<or> x = 17 \<or> x = 18 \<or> x = 19 \<or> x = 20 \<or> x = 21 \<or> x = 22 \<or> x = 23 \<or> x = 24 \<or> x = 25 \<or> x = 26 \<or> x = 27 \<or> x = 28 \<or> x = 29 \<or> x = 30 \<or> x = 31 \<or> x = 32 \<or> x = 33 \<or> x = 34 \<or> x = 35 \<or> x = 36 \<or> x = 37 \<or> x = 38 \<or> x = 39 \<or> x = 40 \<or> x = 41 \<or> x = 42 \<or> x = 43 \<or> x = 44 \<or> x = 45 \<or> x = 46 \<or> x = 47 \<or> x = 48 \<or> x = 49 \<or> x = 50 \<or> 50 < x"
    by arith
  then show ?thesis
    by (elim disjE) (simp_all add: label_mapping_def spec_relabel_def)
qed

lemma spec_relabel_range: "0 \<le> spec_relabel x \<and> spec_relabel x \<le> 25"
  by (simp add: spec_relabel_def)

lemma scast_small:
  assumes "0 \<le> n" "n \<le> 25"
  shows "(scast (word_of_int n :: int32) :: int16) = word_of_int n"
proof -
  have "sint (word_of_int n :: int32) = n"
    using assms by (simp add: sint_sbintrunc' signed_take_bit_int_eq_self)
  then show ?thesis by (simp add: scast_eq)
qed

text \<open>
  Claim C3. For every input volume and every voxel of it: the output voxel of the
  relabeler is the mapped value when the voxel's value is a key of the mapping table
  (11-17 to 1-7, 21-32 to 8-19, 41-45 to 20-24, 50 to 25), and 0 otherwise. The table
  of the code is the table of the specification (\<open>map_of_label_mapping\<close>).
\<close>

theorem relabel_totality:
  "dataobj (relabel_nifti img) = vmap (\<lambda>v. word_of_int (spec_relabel (sint v))) (dataobj img)"
proof -
  have d: "distinct (map fst label_mapping)"
    by (simp add: label_mapping_def)
  have "relabel_voxel label_mapping v 0 = word_of_int (spec_relabel (sint v))" for v
    using map_of_label_mapping [of "sint v"]
    by (simp add: relabel_voxel_map_of [OF d] split: option.splits)
  then show ?thesis
    by (simp add: relabel_nifti_def Let_def fold_relabel_step vmap_vmap scast_small spec_relabel_range)
qed


text \<open>
  At the example image: 11, 21 and 50 become 1, 8 and 25; 60, 33 and -11 are dropped.
\<close>

theorem relabel_totality_witness:
  "dataobj (relabel_nifti example_vertebrae) = [[[1, 8, 25, 0, 0, 0, 0]]]"
  using relabel_totality [of example_vertebrae]
  by (simp add: example_vertebrae_def vmap_def spec_relabel_def)

section \<open>Geometry\<close>

lemma relabel_frame:
  "affine (relabel_nifti img) = affine img"
  "header (relabel_nifti img) = header img"
  by (simp_all add: relabel_nifti_def Let_def)

lemma sct_written:
  assumes "cord_img (process_segmentation img co ca cb) = Some i
         \<or> canal_img (process_segmentation img co ca cb) = Some i
         \<or> combined_img (process_segmentation img co ca cb) = Some i"
  shows "affine i = affine img \<and> header i = (header img)\<lparr>data_dtype := Int16\<rparr>"
  using assms
  by (auto simp: process_segmentation_def Let_def dest!: save_mask_Some split: if_splits)

lemma spineps_written:
  assumes "cord_img (process_spineps_segmentation img co ca cb) = Some i
         \<or> canal_img (process_spineps_segmentation img co ca cb) = Some i
         \<or> combined_img (process_spineps_segmentation img co ca cb) = Some i"
  shows "affine i = affine img \<and> header i = (header img)\<lparr>data_dtype := Int16\<rparr>"
  using assms
  by (auto simp: process_spineps_segmentation_def Let_def dest!: save_mask_Some
      split: if_splits)

text \<open>
  Claim C6. Every image a tool writes has the affine and the zooms of the tool's input:
  the image of the label range filter, the image of the vertebral relabeler, and each of
  the cord, canal and combined images of either splitter. The filter and the relabeler
  pass the header on unchanged; the splitters change its data type to 16-bit integer
  and nothing else.
\<close>

theorem geometry_preserved:
  "same_geometry img (filter_disc_labels img max_label) \<and>
   header (filter_disc_labels img max_label) = header img \<and>
   same_geometry vert (relabel_nifti vert) \<and>
   header (relabel_nifti vert) = header vert \<and>
   (cord_img (process_segmentation img co ca cb) = Some i
    \<or> canal_img (process_segmentation img co ca cb) = Some i
    \<or> combined_img (process_segmentation img co ca cb) = Some i
      \<longrightarrow> same_geometry img i \<and> header i = (header img)\<lparr>data_dtype := Int16\<rparr>) \<and>
   (cord_img (process_spineps_segmentation img co ca cb) = Some j
    \<or> canal_img (process_spineps_segmentation img co ca cb) = Some j
    \<or> combined_img (process_spineps_segmentation img co ca cb) = Some j
      \<longrightarrow> same_geometry img j \<and> header j = (header img)\<lparr>data_dtype := Int16\<rparr>)"
proof (intro conjI impI)
  show "same_geometry img (filter_disc_labels img max_label)"
    and "header (filter_disc_labels img max_label) = header img"
    by (simp_all add: same_geometry_def filter_frame)
  show "same_geometry vert (relabel_nifti vert)"
    and "header (relabel_nifti vert) = header vert"
    by (simp_all add: same_geometry_def relabel_frame)
next
  assume a: "cord_img (process_segmentation img co ca cb) = Some i
    \<or> canal_img (process_segmentation img co ca cb) = Some i
    \<or> combined_img (process_segmentation img co ca cb) = Some i"
  show "same_geometry img i" and "header i = (header img)\<lparr>data_dtype := Int16\<rparr>"
    using sct_written [OF a] by (simp_all add: same_geometry_def)
next
  assume a: "cord_img (process_spineps_segmentation img co ca cb) = Some j
    \<or> canal_img (process_spineps_segmentation img co ca cb) = Some j
    \<or> combined_img (process_spineps_segmentation img co ca cb) = Some j"
  show "same_geometry img j" and "header j = (header img)\<lparr>data_dtype := Int16\<rparr>"
    using spineps_written [OF a] by (simp_all add: same_geometry_def)
qed

theorem geometry_preserved_witness:
  "same_geometry example_image (filter_disc_labels example_image 21) \<and>
   same_geometry example_vertebrae (relabel_nifti example_vertebrae) \<and>
   canal_img (process_segmentation example_image None (Some ''canal.nii'') (Some ''both.nii''))
     = Some \<lparr>dataobj = [[[0, 1, 0, 0]], [[0, 0, 0, 0]]], affine = 7,
             header = \<lparr>data_dtype = Int16, zooms = 3\<rparr>\<rparr> \<and>
   same_geometry example_image
     \<lparr>dataobj = [[[0, 1, 0, 0 :: int16]], [[0, 0, 0, 0]]], affine = 7,
      header = \<lparr>data_dtype = Int16, zooms = 3\<rparr>\<rparr> \<and>
   combined_img (process_spineps_segmentation example_image None (Some ''canal.nii'') (Some ''both.nii''))
     = Some \<lparr>dataobj = [[[0, 0, 1, 1]], [[0, 0, 0, 0]]], affine = 7,
             header = \<lparr>data_dtype = Int16, zooms = 3\<rparr>\<rparr> \<and>
   same_geometry example_image
     \<lparr>dataobj = [[[0, 0, 1, 1 :: int16]], [[0, 0, 0, 0]]], affine = 7,
      header = \<lparr>data_dtype = Int16, zooms = 3\<rparr>\<rparr>"
  using geometry_preserved [where img = example_image and max_label = 21
      and vert = example_vertebrae and co = None and ca = "Some ''canal.nii''"
      and cb = "Some ''both.nii''"
      and i = "\<lparr>dataobj = [[[0, 1, 0, 0]], [[0, 0, 0, 0]]], affine = 7,
        header = \<lparr>data_dtype = Int16, zooms = 3\<rparr>\<rparr>"
      and j = "\<lparr>dataobj = [[[0, 0, 1, 1]], [[0, 0, 0, 0]]], affine = 7,
        header = \<lparr>data_dtype = Int16, zooms = 3\<rparr>\<rparr>"]
  by (simp add: splitter_eval)

section \<open>Properties of the CSV aggregator\<close>

subsection \<open>Level column names\<close>

lemma of_char_digit_char: "d < 10 \<Longrightarrow> (of_char (digit_char d) :: nat) = 48 + d"
  by (simp add: digit_char_def)

lemma is_digit_iff: "is_digit c \<longleftrightarrow> 48 \<le> (of_char c :: nat) \<and> (of_char c :: nat) \<le> 57"
  by (simp add: is_digit_def less_eq_char_def)

lemma is_digit_digit_char: "d < 10 \<Longrightarrow> is_digit (digit_char d)"
  by (simp add: is_digit_iff of_char_digit_char)

lemma digit_val_digit_char: "d < 10 \<Longrightarrow> digit_val (digit_char d) = d"
  by (simp add: digit_val_def of_char_digit_char)

lemma str_nat_digits: "list_all is_digit (str_nat n)"
  by (induction n rule: str_nat.induct) (subst str_nat.simps, simp add: is_digit_digit_char)

lemma str_nat_nonempty: "str_nat n \<noteq> []"
  by (subst str_nat.simps) simp

lemma dec_value_str_nat: "dec_value 0 (str_nat n) = n"
proof (induction n rule: str_nat.induct)
  case (1 n)
  show ?case
  proof (cases "n < 10")
    case True
    then show ?thesis by (subst str_nat.simps) (simp add: dec_value_def digit_val_digit_char)
  next
    case False
    then have "dec_value 0 (str_nat (n div 10)) = n div 10" using 1 by simp
    then show ?thesis using False
      by (subst str_nat.simps) (simp add: dec_value_def digit_val_digit_char)
  qed
qed

lemma digits_value_digits:
  "list_all is_digit s \<Longrightarrow> digits_value acc s = Some (dec_value acc s)"
  by (induction acc s rule: digits_value.induct) (simp_all add: dec_value_def)

lemma not_space_digit: "is_digit c \<Longrightarrow> \<not> is_space c"
  by (auto simp: is_digit_iff is_space_def)

lemma strip_digits:
  assumes "list_all is_digit s"
  shows "strip s = s"
proof (cases s rule: rev_cases)
  case Nil
  then show ?thesis by (simp add: strip_def)
next
  case (snoc ys y)
  then have "\<not> is_space y" using assms by (simp add: not_space_digit)
  moreover have "dropWhile is_space s = s"
    using assms by (cases s) (simp_all add: not_space_digit)
  ultimately show ?thesis using snoc by (simp add: strip_def)
qed

lemma int_of_str_digits:
  assumes "list_all is_digit s" "s \<noteq> []"
  shows "int_of_str s = Some (int (dec_value 0 s))"
proof -
  obtain c cs where s: "s = c # cs" using assms(2) by (cases s) auto
  then have c: "is_digit c" using assms(1) by simp
  then have sign: "c \<noteq> CHR ''-''" "c \<noteq> CHR ''+''"
    by (auto simp: is_digit_iff)
  have "digits_value 0 s = Some (dec_value 0 s)"
    by (rule digits_value_digits [OF assms(1)])
  then have nl: "nat_literal s = Some (dec_value 0 s)"
    unfolding nat_literal_def s using c by simp
  have st: "strip s = s"
    by (rule strip_digits [OF assms(1)])
  show ?thesis
    unfolding int_of_str_def st unfolding s list.case using sign nl [unfolded s] by simp 
qed


lemma int_of_str_str_nat: "int_of_str (str_nat n) = Some (int n)"
  by (simp add: int_of_str_digits str_nat_digits str_nat_nonempty dec_value_str_nat)

lemma remove_all_absent:
  "pat \<noteq> [] \<Longrightarrow> hd pat \<notin> set s \<Longrightarrow> remove_all pat s = s"
proof (induction s)
  case Nil
  then show ?case by (subst remove_all.simps) simp
next
  case (Cons c cs)
  then have "take (length pat) (c # cs) \<noteq> pat"
    by (cases pat) auto
  then show ?case using Cons by (subst remove_all.simps) simp
qed

lemma digits_no_l: "list_all is_digit s \<Longrightarrow> CHR ''l'' \<notin> set s"
  by (auto simp: list_all_iff is_digit_iff)

lemma remove_all_level:
  "list_all is_digit s \<Longrightarrow>
   remove_all ''level'' (CHR ''l'' # CHR ''e'' # CHR ''v'' # CHR ''e'' # CHR ''l'' # s) = s"
  by (subst remove_all.simps) (simp add: remove_all_absent digits_no_l)

lemma level_key_level_name: "0 < n \<Longrightarrow> level_key (level_name n) = Inr n"
  by (simp add: level_key_def level_name_def py_str_def remove_all_level str_nat_digits
      int_of_str_str_nat)

lemma startswith_level_name: "startswith (level_name n) ''level''"
  by (simp add: startswith_def level_name_def)


subsection \<open>The row loop\<close>

lemma level_name_not_fixed:
  "level_name n \<noteq> ''subject_id''" "level_name n \<noteq> ''session_id''"
  "''subject_id'' \<noteq> level_name n" "''session_id'' \<noteq> level_name n"
  by (simp_all add: level_name_def)

lemma not_startswith_fixed:
  "\<not> startswith ''subject_id'' ''level''" "\<not> startswith ''session_id'' ''level''"
  by (simp_all add: startswith_def)

lemma set_positive_levels:
  "set (positive_levels cols recs)
     = {n. 0 < n \<and> (\<exists>rec\<in>set recs. py_int (level_cell cols rec) = Inr n)}"
  by (auto simp: positive_levels_def split: sum.splits if_splits)

lemma positive_levels_Cons:
  "positive_levels cols (rec # recs)
     = (case py_int (level_cell cols rec) of Inl e \<Rightarrow> [] | Inr n \<Rightarrow> if 0 < n then [n] else [])
       @ positive_levels cols recs"
  by (simp add: positive_levels_def)

lemma pivot_levels_keys:
  "pivot_levels info cols recs row = Inr row' \<Longrightarrow>
   fst ` set row' = fst ` set row \<union> level_name ` set (positive_levels cols recs)"
proof (induction recs arbitrary: row)
  case Nil
  then show ?case by (simp add: positive_levels_def)
next
  case (Cons rec recs)
  then obtain n where n: "py_int (level_cell cols rec) = Inr n"
    by (auto split: sum.splits)
  show ?case
  proof (cases "0 < n")
    case True
    then have "pivot_levels info cols recs (AList.update (level_name n) (rec info) row) = Inr row'"
      using Cons.prems n by (simp add: level_name_def)
    from Cons.IH [OF this] show ?thesis
      using n True by (auto simp: positive_levels_Cons dom_update)
  next
    case False
    then have "pivot_levels info cols recs row = Inr row'"
      using Cons.prems n by simp
    from Cons.IH [OF this] show ?thesis
      using n False by (simp add: positive_levels_Cons)
  qed
qed

lemma pivot_levels_other_key:
  "pivot_levels info cols recs row = Inr row' \<Longrightarrow> (\<And>n. k \<noteq> level_name n) \<Longrightarrow>
   map_of row' k = map_of row k"
proof (induction recs arbitrary: row)
  case Nil
  then show ?case by simp
next
  case (Cons rec recs)
  then obtain n where n: "py_int (level_cell cols rec) = Inr n"
    by (auto split: sum.splits)
  show ?case
  proof (cases "0 < n")
    case True
    then have "pivot_levels info cols recs (AList.update (level_name n) (rec info) row) = Inr row'"
      using Cons.prems n by (simp add: level_name_def)
    from Cons.IH [OF this Cons.prems(2)] show ?thesis
      using Cons.prems(2) [of n] by (simp add: update_conv')
  next
    case False
    then have "pivot_levels info cols recs row = Inr row'"
      using Cons.prems n by simp
    from Cons.IH [OF this Cons.prems(2)] show ?thesis .
  qed
qed

lemma pivot_levels_no_positive:
  "pivot_levels info cols recs row = Inr row' \<Longrightarrow> positive_levels cols recs = [] \<Longrightarrow>
   row' = row"
proof (induction recs arbitrary: row)
  case Nil
  then show ?case by simp
next
  case (Cons rec recs)
  then show ?case
    by (auto simp: positive_levels_Cons split: sum.splits if_splits)
qed

subsection \<open>The file loop\<close>

lemma parse_files_rows:
  "parse_files info pat files ws rows = (ws', Inr rows') \<Longrightarrow>
   \<exists>new. rows' = rows @ new \<and>
     list_all2 (\<lambda>f r. file_row info f = Inr r) (contributing info pat files) new"
proof (induction files arbitrary: ws rows)
  case Nil
  then show ?case by (simp add: contributing_def)
next
  case (Cons f files)
  obtain fname content where f: "f = (fname, content)" by (cases f)
  show ?case
  proof (cases "endswith fname pat \<and> (\<exists>df. content = Some df \<and> info \<in> set (columns df))")
    case False
    then have c: "contributing info pat (f # files) = contributing info pat files"
      by (auto simp: contributing_def f split: option.splits)
    from False Cons.prems obtain ws1 where
      "parse_files info pat files ws1 rows = (ws', Inr rows')"
      by (auto simp: f split: option.splits if_splits prod.splits)
    from Cons.IH [OF this] show ?thesis by (simp add: c)
  next
    case True
    then obtain df where df: "content = Some df" "info \<in> set (columns df)" "endswith fname pat"
      by auto
    then have c: "contributing info pat (f # files) = (fname, df) # contributing info pat files"
      by (simp add: contributing_def f)
    from Cons.prems df obtain row where
      row: "file_row info (fname, df) = Inr row"
      and rest: "parse_files info pat files ws (rows @ [row]) = (ws', Inr rows')"
      by (auto simp: f file_row_def initial_row_def split: sum.splits prod.splits)
    from Cons.IH [OF rest] obtain new where
      "rows' = (rows @ [row]) @ new"
      "list_all2 (\<lambda>f r. file_row info f = Inr r) (contributing info pat files) new"
      by blast
    then show ?thesis using row by (intro exI [of _ "row # new"]) (simp add: c)
  qed
qed

subsection \<open>Building the table\<close>

lemma fold_first_seen:
  "set (fold (\<lambda>k acc. if k \<in> set acc then acc else acc @ [k]) ks acc) = set acc \<union> set ks"
  "distinct acc \<Longrightarrow> distinct (fold (\<lambda>k acc. if k \<in> set acc then acc else acc @ [k]) ks acc)"
  by (induction ks arbitrary: acc) auto

lemma set_frame_columns: "set (frame_columns rows) = (\<Union>r\<in>set rows. fst ` set r)"
  by (auto simp: frame_columns_def fold_first_seen)

lemma distinct_frame_columns: "distinct (frame_columns rows)"
  by (simp add: frame_columns_def fold_first_seen)

lemma sequence_sum_Inr: "sequence_sum (map Inr xs) = Inr xs"
  by (induction xs) simp_all

lemma insort_key_fst_graph:
  "insort_key fst (n, f n) (map (\<lambda>n. (n, f n)) xs) = map (\<lambda>n. (n, f n)) (insort n xs)"
  by (induction xs) simp_all

lemma sort_key_fst_graph:
  "sort_key fst (map (\<lambda>n. (n, f n)) xs) = map (\<lambda>n. (n, f n)) (sort xs)"
  by (induction xs) (simp_all add: insort_key_fst_graph)

lemma sorted_by_level_names:
  assumes "distinct cs" and "set cs = level_name ` set lv" and "\<forall>n\<in>set lv. 0 < n"
  shows "sorted_by_level cs = Inr (map level_name (sort (remdups lv)))"
proof -
  define ns where "ns = map (\<lambda>c. projr (level_key c)) cs"
  have key: "level_key c = Inr (projr (level_key c)) \<and> c = level_name (projr (level_key c))
      \<and> projr (level_key c) \<in> set lv" if "c \<in> set cs" for c
  proof -
    from that assms(2) obtain n where "n \<in> set lv" "c = level_name n" by auto
    then show ?thesis using assms(3) by (simp add: level_key_level_name)
  qed
  have keys: "map level_key cs = map Inr ns"
    using key by (simp add: ns_def)
  have cs: "cs = map level_name ns"
    using key by (simp add: ns_def map_idI)
  have "distinct ns"
    using assms(1) by (subst (asm) cs) (simp add: distinct_map)
  moreover have "set ns = set lv"
  proof
    show "set ns \<subseteq> set lv" using key by (auto simp: ns_def)
    show "set lv \<subseteq> set ns"
    proof
      fix n assume n: "n \<in> set lv"
      then have "level_name n \<in> set cs" using assms(2) by auto
      then obtain m where m: "m \<in> set ns" "level_name n = level_name m"
        by (subst (asm) cs) auto
      then have "m \<in> set lv" using \<open>set ns \<subseteq> set lv\<close> by auto
      then have "level_key (level_name m) = Inr m" "level_key (level_name n) = Inr n"
        using n assms(3) by (simp_all add: level_key_level_name)
      then show "n \<in> set ns" using m by simp
    qed
  qed
  ultimately have "sort ns = sort (remdups lv)"
    by (intro sorted_distinct_set_unique) simp_all
  moreover have "zip ns cs = map (\<lambda>n. (n, level_name n)) ns"
    by (subst cs) (simp add: zip_map2 zip_same_conv_map)
  ultimately show ?thesis
    by (simp add: sorted_by_level_def keys sequence_sum_Inr sort_key_fst_graph comp_def)
qed



lemma initial_row_keys: "fst ` set (initial_row fname) = {''subject_id'', ''session_id''}"
  by (simp add: initial_row_def)

lemma file_row_keys:
  "file_row info f = Inr r \<Longrightarrow>
   fst ` set r = {''subject_id'', ''session_id''} \<union> level_name ` set (file_levels f)"
  unfolding file_row_def file_levels_def
  by (simp only: pivot_levels_keys initial_row_keys)

lemma rows_keys:
  assumes "list_all2 (\<lambda>f r. file_row info f = Inr r) fs rows" and "rows \<noteq> []"
  shows "(\<Union>r\<in>set rows. fst ` set r)
       = {''subject_id'', ''session_id''} \<union> level_name ` set (concat (map file_levels fs))"
  using assms
proof (induction rule: list_all2_induct)
  case Nil
  then show ?case by simp
next
  case (Cons f fs r rows)
  define K where "K = {''subject_id'', ''session_id''}"
  have r: "fst ` set r = K \<union> level_name ` set (file_levels f)"
    unfolding K_def using Cons.hyps(1) by (rule file_row_keys)
  show ?case
  proof (cases "rows = []")
    case True
    then have "fs = []" using Cons.hyps(2) by simp
    then show ?thesis using True r unfolding K_def by simp
  next
    case False
    then have "(\<Union>r\<in>set rows. fst ` set r) = K \<union> level_name ` set (concat (map file_levels fs))"
      unfolding K_def by (rule Cons.IH)
    then have "(\<Union>r\<in>set (r # rows). fst ` set r)
        = K \<union> level_name ` set (concat (map file_levels (f # fs)))"
      using r by (simp add: image_Un Un_ac)
    then show ?thesis unfolding K_def .
  qed
qed

lemma positive_levels_pos: "n \<in> set (positive_levels cols recs) \<Longrightarrow> 0 < n"
  by (simp add: set_positive_levels)

lemma file_levels_pos: "n \<in> set (concat (map file_levels fs)) \<Longrightarrow> 0 < n"
  by (auto simp: file_levels_def dest: positive_levels_pos)

lemma filter_level_columns:
  assumes "set cols = {''subject_id'', ''session_id''} \<union> level_name ` N"
  shows "set (filter (\<lambda>c. startswith c ''level'') cols) = level_name ` N"
proof
  show "set (filter (\<lambda>c. startswith c ''level'') cols) \<subseteq> level_name ` N"
  proof
    fix c assume "c \<in> set (filter (\<lambda>c. startswith c ''level'') cols)"
    then have "c \<in> set cols" and s: "startswith c ''level''" by simp_all
    then have "c = ''subject_id'' \<or> c = ''session_id'' \<or> c \<in> level_name ` N"
      unfolding assms by blast
    then show "c \<in> level_name ` N"
      using s not_startswith_fixed by blast
  qed
  show "level_name ` N \<subseteq> set (filter (\<lambda>c. startswith c ''level'') cols)"
  proof
    fix c assume "c \<in> level_name ` N"
    then have "c \<in> set cols" and "startswith c ''level''"
      unfolding assms using startswith_level_name by blast+
    then show "c \<in> set (filter (\<lambda>c. startswith c ''level'') cols)" by simp
  qed
qed

lemma build_table_rows:
  assumes rel: "list_all2 (\<lambda>f r. file_row info f = Inr r) fs rows"
    and ne: "rows \<noteq> []"
  shows "build_table rows =
     Inr \<lparr>tcolumns = [''subject_id'', ''session_id''] @ map level_name (union_levels fs),
          trows = map (\<lambda>r. map (frame_value rows r)
                    ([''subject_id'', ''session_id''] @ map level_name (union_levels fs))) rows\<rparr>"
proof -
  let ?lv = "concat (map file_levels fs)"
  let ?cs = "filter (\<lambda>c. startswith c ''level'') (frame_columns rows)"
  let ?cols = "[''subject_id'', ''session_id''] @ map level_name (union_levels fs)"
  have cols: "set (frame_columns rows) = {''subject_id'', ''session_id''} \<union> level_name ` set ?lv"
    unfolding set_frame_columns by (rule rows_keys [OF rel ne])
  have pos: "\<forall>n\<in>set ?lv. 0 < n"
    using file_levels_pos by blast
  have cs: "set ?cs = level_name ` set ?lv"
    by (rule filter_level_columns [OF cols])
  have "distinct ?cs"
    by (simp add: distinct_frame_columns)
  then have sorted: "sorted_by_level ?cs = Inr (map level_name (union_levels fs))"
    unfolding union_levels_def using cs pos by (rule sorted_by_level_names)
  have "set (union_levels fs) = set ?lv"
    by (simp add: union_levels_def)
  then have "set ?cols \<subseteq> set (frame_columns rows)"
    unfolding cols by auto
  then have added: "filter (\<lambda>c. c \<notin> set (frame_columns rows)) ?cols = []"
    unfolding filter_empty_conv by blast
  show ?thesis
    unfolding build_table_def Let_def sorted sum.case added by simp
qed

subsection \<open>The table a call returns\<close>

lemma parse_method_directory_Inr:
  assumes "parse_method_directory (Some listing) info mt = (ws, Inr t)"
  shows "\<exists>rows. list_all2 (\<lambda>f r. file_row info f = Inr r)
           (contributing info (''_'' @ mt @ ''.csv'') (sort_key fst listing)) rows \<and>
         (if contributing info (''_'' @ mt @ ''.csv'') (sort_key fst listing) = []
          then t = empty_frame
          else t = \<lparr>tcolumns = [''subject_id'', ''session_id'']
                      @ map level_name
                          (union_levels (contributing info (''_'' @ mt @ ''.csv'') (sort_key fst listing))),
                    trows = map (\<lambda>r. map (frame_value rows r)
                      ([''subject_id'', ''session_id'']
                        @ map level_name
                            (union_levels (contributing info (''_'' @ mt @ ''.csv'') (sort_key fst listing)))))
                      rows\<rparr>)"
proof -
  define pat where "pat = ''_'' @ mt @ ''.csv''"
  define fs where "fs = contributing info pat (sort_key fst listing)"
  obtain ws' res where p: "parse_files info pat (sort_key fst listing) [] [] = (ws', res)"
    by (cases "parse_files info pat (sort_key fst listing) [] []")
  have "parse_method_directory (Some listing) info mt
      = (case (ws', res) of
           (ws, Inl e) \<Rightarrow> (ws, Inl e)
         | (ws, Inr rows) \<Rightarrow> (ws, if rows = [] then Inr empty_frame else build_table rows))"
    unfolding parse_method_directory_def Let_def option.case pat_def [symmetric] p
    by (rule refl)
  with assms obtain rows where res: "res = Inr rows"
    and t: "(if rows = [] then Inr empty_frame else build_table rows) = Inr t"
    by (cases res) auto
  from parse_files_rows [OF p [unfolded res]]
  have rel: "list_all2 (\<lambda>f r. file_row info f = Inr r) fs rows"
    by (simp add: fs_def)
  then have len: "length fs = length rows" by (rule list_all2_lengthD)
  have "list_all2 (\<lambda>f r. file_row info f = Inr r) fs rows \<and>
         (if fs = [] then t = empty_frame
          else t = \<lparr>tcolumns = [''subject_id'', ''session_id''] @ map level_name (union_levels fs),
                    trows = map (\<lambda>r. map (frame_value rows r)
                      ([''subject_id'', ''session_id''] @ map level_name (union_levels fs))) rows\<rparr>)"
  proof (cases "rows = []")
    case True
    then show ?thesis using rel t len by simp
  next
    case False
    then have "fs \<noteq> []" using len by auto
    moreover have "build_table rows = Inr t" using t False by simp
    ultimately show ?thesis using rel build_table_rows [OF rel False] by simp
  qed
  then show ?thesis unfolding fs_def pat_def by blast
qed

lemma file_row_fixed_cells:
  assumes "file_row info f = Inr r"
  shows "frame_cell r ''subject_id'' = StrV (fst (extract_bids_fields (fst f)))"
    and "frame_cell r ''session_id'' = StrV (snd (extract_bids_fields (fst f)))"
proof -
  have "map_of r ''subject_id'' = map_of (initial_row (fst f)) ''subject_id''"
    using assms unfolding file_row_def
    by (rule pivot_levels_other_key) (rule level_name_not_fixed)
  then show "frame_cell r ''subject_id'' = StrV (fst (extract_bids_fields (fst f)))"
    by (simp add: frame_cell_def initial_row_def)
  have "map_of r ''session_id'' = map_of (initial_row (fst f)) ''session_id''"
    using assms unfolding file_row_def
    by (rule pivot_levels_other_key) (rule level_name_not_fixed)
  then show "frame_cell r ''session_id'' = StrV (snd (extract_bids_fields (fst f)))"
    by (simp add: frame_cell_def initial_row_def)
qed

lemma file_row_no_levels:
  assumes "file_row info f = Inr r" and "file_levels f = []"
  shows "frame_cell r (level_name n) = NaNV"
proof -
  have "r = initial_row (fst f)"
    using assms unfolding file_row_def file_levels_def by (rule pivot_levels_no_positive)
  then show ?thesis
    using level_name_not_fixed [of n] by (simp add: frame_cell_def initial_row_def)
qed

lemma as_float_keep: "\<forall>i. v \<noteq> IntV i \<Longrightarrow> as_float v = v"
  by (cases v) (auto simp: as_float_def)

lemma frame_value_keep:
  "\<forall>i. frame_cell r c \<noteq> IntV i \<Longrightarrow> frame_value rows r c = frame_cell r c"
  by (simp add: frame_value_def Let_def as_float_keep)

lemma frame_value_fixed_cells:
  assumes "file_row info f = Inr r"
  shows "frame_value rows r ''subject_id'' = StrV (fst (extract_bids_fields (fst f)))"
    and "frame_value rows r ''session_id'' = StrV (snd (extract_bids_fields (fst f)))"
  by (simp_all add: frame_value_keep file_row_fixed_cells [OF assms])

lemma frame_value_no_levels:
  assumes "file_row info f = Inr r" and "file_levels f = []"
  shows "frame_value rows r (level_name n) = NaNV"
  by (simp add: frame_value_keep file_row_no_levels [OF assms])

lemma row_of_file_cells:
  assumes "file_row info f = Inr r" and "tcolumns t = [''subject_id'', ''session_id''] @ map level_name ul"
  shows "row_of_file t f
           (map (frame_value rows r) ([''subject_id'', ''session_id''] @ map level_name ul))"
proof -
  have "file_levels f = [] \<Longrightarrow>
      map (frame_value rows r) (map level_name ul) = replicate (length ul) NaNV"
    using frame_value_no_levels [OF assms(1)] by (simp add: map_replicate_const comp_def)
  then show ?thesis
    using frame_value_fixed_cells [OF assms(1)] by (simp add: row_of_file_def assms(2))
qed

subsection \<open>When the call returns a table\<close>

lemma pivot_levels_total:
  "list_all (\<lambda>rec. case py_int (level_cell cols rec) of Inl e \<Rightarrow> False | Inr n \<Rightarrow> True) recs
   \<Longrightarrow> \<exists>row'. pivot_levels info cols recs row = Inr row'"
  by (induction recs arbitrary: row) (auto split: sum.splits)

lemma file_row_total: "levels_convert f \<Longrightarrow> \<exists>r. file_row info f = Inr r"
  unfolding levels_convert_def file_row_def by (rule pivot_levels_total)

lemma parse_files_total:
  "list_all levels_convert (contributing info pat files) \<Longrightarrow>
   \<exists>ws' rows'. parse_files info pat files ws rows = (ws', Inr rows')"
proof (induction files arbitrary: ws rows)
  case Nil
  then show ?case by simp
next
  case (Cons f files)
  obtain fname content where f: "f = (fname, content)" by (cases f)
  show ?case
  proof (cases "endswith fname pat \<and> (\<exists>df. content = Some df \<and> info \<in> set (columns df))")
    case False
    then have c: "contributing info pat (f # files) = contributing info pat files"
      by (auto simp: contributing_def f split: option.splits)
    then have "\<exists>ws' rows'. parse_files info pat files ws1 rows = (ws', Inr rows')" for ws1
      using Cons by simp
    then show ?thesis using False
      by (auto simp: f split: option.splits prod.splits)
  next
    case True
    then obtain df where df: "content = Some df" "info \<in> set (columns df)" "endswith fname pat"
      by auto
    then have c: "contributing info pat (f # files) = (fname, df) # contributing info pat files"
      by (simp add: contributing_def f)
    then obtain row where row: "file_row info (fname, df) = Inr row"
      using Cons.prems file_row_total [of "(fname, df)" info] by auto
    have "\<exists>ws' rows'. parse_files info pat files ws (rows @ [row]) = (ws', Inr rows')"
      using Cons c by simp
    then show ?thesis using df row
      by (auto simp: f file_row_def initial_row_def split: prod.splits)
  qed
qed

lemma parse_method_directory_total:
  assumes "list_all levels_convert (contributing info (''_'' @ mt @ ''.csv'') (sort_key fst listing))"
  shows "\<exists>ws t. parse_method_directory (Some listing) info mt = (ws, Inr t)"
proof -
  define pat where "pat = ''_'' @ mt @ ''.csv''"
  from parse_files_total [OF assms, of "[]" "[]"] obtain ws rows where
    p: "parse_files info pat (sort_key fst listing) [] [] = (ws, Inr rows)"
    unfolding pat_def by blast
  have e: "parse_method_directory (Some listing) info mt
      = (ws, if rows = [] then Inr empty_frame else build_table rows)"
    unfolding parse_method_directory_def Let_def option.case pat_def [symmetric] p
    by simp
  show ?thesis
  proof (cases "rows = []")
    case True
    then show ?thesis using e by simp
  next
    case False
    from parse_files_rows [OF p] have "list_all2 (\<lambda>f r. file_row info f = Inr r)
        (contributing info pat (sort_key fst listing)) rows"
      by simp
    from build_table_rows [OF this False] show ?thesis using e False by simp
  qed
qed

subsection \<open>Columns of the output table\<close>

lemma union_levels_props:
  "sorted (union_levels fs)" "distinct (union_levels fs)"
  "set (union_levels fs) = (\<Union>f\<in>set fs. set (file_levels f))"
  by (simp_all add: union_levels_def)

text \<open>
  Claim C4. For every method directory and measure type with at least one contributing
  file, the columns of the table that \<open>parse_method_directory\<close> returns are
  \<open>subject_id\<close>, \<open>session_id\<close> and then one level column for each level in the union
  of the positive levels of the contributing files, in ascending order of the level.
  The call does return a table whenever every level cell of the contributing files
  converts to an integer.
\<close>

theorem level_columns_sorted_union:
  "(parse_method_directory (Some listing) info_column measure_type = (ws, Inr t) \<and>
    contributing_files listing info_column measure_type \<noteq> []
      \<longrightarrow> tcolumns t =
            [''subject_id'', ''session_id''] @
            map level_name (union_levels (contributing_files listing info_column measure_type)) \<and>
          sorted (union_levels (contributing_files listing info_column measure_type)) \<and>
          distinct (union_levels (contributing_files listing info_column measure_type)) \<and>
          set (union_levels (contributing_files listing info_column measure_type))
            = (\<Union>f\<in>set (contributing_files listing info_column measure_type).
                 set (file_levels f))) \<and>
   (list_all levels_convert (contributing_files listing info_column measure_type)
      \<longrightarrow> (\<exists>ws' t'. parse_method_directory (Some listing) info_column measure_type
                     = (ws', Inr t')))"
proof (intro conjI impI; (elim conjE)?)
  define fs where "fs = contributing_files listing info_column measure_type"
  assume p: "parse_method_directory (Some listing) info_column measure_type = (ws, Inr t)"
    and ne: "contributing_files listing info_column measure_type \<noteq> []"
  from parse_method_directory_Inr [OF p] ne
  obtain rows where
    "t = \<lparr>tcolumns = [''subject_id'', ''session_id''] @ map level_name (union_levels fs),
          trows = map (\<lambda>r. map (frame_value rows r)
              ([''subject_id'', ''session_id''] @ map level_name (union_levels fs))) rows\<rparr>"
    unfolding fs_def contributing_files_def by (auto split: if_splits)
  then have "tcolumns t = [''subject_id'', ''session_id''] @ map level_name (union_levels fs)"
    by (simp only: table.simps)
  then show "tcolumns t =
            [''subject_id'', ''session_id''] @
            map level_name (union_levels (contributing_files listing info_column measure_type))"
    unfolding fs_def .
  show "sorted (union_levels (contributing_files listing info_column measure_type))"
    and "distinct (union_levels (contributing_files listing info_column measure_type))"
    and "set (union_levels (contributing_files listing info_column measure_type))
            = (\<Union>f\<in>set (contributing_files listing info_column measure_type).
                 set (file_levels f))"
    by (rule union_levels_props)+
next
  assume "list_all levels_convert (contributing_files listing info_column measure_type)"
  then show "\<exists>ws' t'. parse_method_directory (Some listing) info_column measure_type
      = (ws', Inr t')"
    unfolding contributing_files_def by (rule parse_method_directory_total)
qed

theorem level_columns_sorted_union_witness:
  "parse_method_directory (Some example_listing) ''MEAN(area)'' ''cord''
     = ([Could_not_read ''sub-04_cord.csv''],
        Inr \<lparr>tcolumns = [''subject_id'', ''session_id'', ''level2'', ''level3'', ''level10''],
             trows = [[StrV ''01'', StrV [], FloatV 7, FloatV 8, NaNV],
                      [StrV ''02'', StrV ''1'', NaNV, FloatV 5, FloatV 4],
                      [StrV ''03'', StrV [], NaNV, NaNV, NaNV]]\<rparr>) \<and>
   contributing_files example_listing ''MEAN(area)'' ''cord'' \<noteq> [] \<and>
   list_all levels_convert (contributing_files example_listing ''MEAN(area)'' ''cord'') \<and>
   union_levels (contributing_files example_listing ''MEAN(area)'' ''cord'') = [2, 3, 10] \<and>
   [''subject_id'', ''session_id'', ''level2'', ''level3'', ''level10'']
     = [''subject_id'', ''session_id''] @
       map level_name (union_levels (contributing_files example_listing ''MEAN(area)'' ''cord''))"
proof -
  have e: "parse_method_directory (Some example_listing) ''MEAN(area)'' ''cord''
     = ([Could_not_read ''sub-04_cord.csv''],
        Inr \<lparr>tcolumns = [''subject_id'', ''session_id'', ''level2'', ''level3'', ''level10''],
             trows = [[StrV ''01'', StrV [], FloatV 7, FloatV 8, NaNV],
                      [StrV ''02'', StrV ''1'', NaNV, FloatV 5, FloatV 4],
                      [StrV ''03'', StrV [], NaNV, NaNV, NaNV]]\<rparr>)"
    by code_simp
  have c: "contributing_files example_listing ''MEAN(area)'' ''cord'' \<noteq> []"
    by code_simp
  have v: "list_all levels_convert (contributing_files example_listing ''MEAN(area)'' ''cord'')"
    by code_simp
  have u: "union_levels (contributing_files example_listing ''MEAN(area)'' ''cord'') = [2, 3, 10]"
    by code_simp
  from level_columns_sorted_union
    [of example_listing "''MEAN(area)''" "''cord''" "[Could_not_read ''sub-04_cord.csv'']"
      "\<lparr>tcolumns = [''subject_id'', ''session_id'', ''level2'', ''level3'', ''level10''],
             trows = [[StrV ''01'', StrV [], FloatV 7, FloatV 8, NaNV],
                      [StrV ''02'', StrV ''1'', NaNV, FloatV 5, FloatV 4],
                      [StrV ''03'', StrV [], NaNV, NaNV, NaNV]]\<rparr>"] e c
  have "tcolumns \<lparr>tcolumns = [''subject_id'', ''session_id'', ''level2'', ''level3'', ''level10''],
             trows = [[StrV ''01'', StrV [], FloatV 7, FloatV 8, NaNV],
                      [StrV ''02'', StrV ''1'', NaNV, FloatV 5, FloatV 4],
                      [StrV ''03'', StrV [], NaNV, NaNV, NaNV]]\<rparr>
      = [''subject_id'', ''session_id''] @
        map level_name (union_levels (contributing_files example_listing ''MEAN(area)'' ''cord''))"
    by blast
  then have "[''subject_id'', ''session_id'', ''level2'', ''level3'', ''level10'']
     = [''subject_id'', ''session_id''] @
       map level_name (union_levels (contributing_files example_listing ''MEAN(area)'' ''cord''))"
    by (simp only: table.simps)
  with e c v u show ?thesis by (intro conjI)
qed

subsection \<open>Rows of the output table\<close>

text \<open>
  Claim C10, as stated, fails: a file with the suffix, read, with the value column and
  with no positive level may have a level cell that does not convert to an integer.
  Then \<open>int\<close> raises, nothing catches it, and no file of the directory gets a row. In
  the listing below both files are contributing, the level cell of the first is missing
  (NaN), and the call ends with the error.
\<close>

theorem missing_level_counterexample:
  "map fst (contributing_files missing_level_listing ''MEAN(area)'' ''cord'')
     = [''sub-01_cord.csv'', ''sub-02_cord.csv''] \<and>
   map file_levels (contributing_files missing_level_listing ''MEAN(area)'' ''cord'')
     = [[], [3]] \<and>
   parse_method_directory (Some missing_level_listing) ''MEAN(area)'' ''cord''
     = ([], Inl ValueError)"
  by code_simp

text \<open>
  Claim C10, amended. When every level cell of every contributing file (its name ends
  with the suffix, it was read, it has the configured value column) converts to an
  integer, \<open>parse_method_directory\<close> returns a table in which every contributing file
  has exactly one row, in the order of the file names: the row starts with the file's
  subject and session, and when no data row of the file has a positive level every
  level column of the row is empty (NaN). With at least one contributing file the
  table is not empty, so \<open>main\<close> writes it. The same holds of every table the call
  returns.
\<close>

theorem one_row_per_contributing_file:
  "(list_all levels_convert (contributing_files listing info_column measure_type)
      \<longrightarrow> (\<exists>ws' t'. parse_method_directory (Some listing) info_column measure_type
                     = (ws', Inr t') \<and>
                   list_all2 (row_of_file t')
                     (contributing_files listing info_column measure_type) (trows t') \<and>
                   (contributing_files listing info_column measure_type \<noteq> []
                      \<longrightarrow> \<not> df_empty t'))) \<and>
   (parse_method_directory (Some listing) info_column measure_type = (ws, Inr t)
      \<longrightarrow> list_all2 (row_of_file t)
            (contributing_files listing info_column measure_type) (trows t) \<and>
          (contributing_files listing info_column measure_type \<noteq> [] \<longrightarrow> \<not> df_empty t))"
proof -
  define fs where "fs = contributing_files listing info_column measure_type"
  define cols where "cols = [''subject_id'', ''session_id''] @ map level_name (union_levels fs)"
  have returned: "list_all2 (row_of_file t) fs (trows t) \<and> (fs \<noteq> [] \<longrightarrow> \<not> df_empty t)"
    if p: "parse_method_directory (Some listing) info_column measure_type = (ws, Inr t)"
    for ws t
  proof -
    from parse_method_directory_Inr [OF p]
    obtain rows where rel: "list_all2 (\<lambda>f r. file_row info_column f = Inr r) fs rows"
      and t: "if fs = [] then t = empty_frame
              else t = \<lparr>tcolumns = cols, trows = map (\<lambda>r. map (frame_value rows r) cols) rows\<rparr>"
      unfolding fs_def cols_def contributing_files_def by blast
    show ?thesis
    proof (cases "fs = []")
      case True
      then show ?thesis using t by (simp add: empty_frame_def)
    next
      case False
      then have t': "t = \<lparr>tcolumns = cols, trows = map (\<lambda>r. map (frame_value rows r) cols) rows\<rparr>"
        using t by simp
      then have tc: "tcolumns t = [''subject_id'', ''session_id''] @ map level_name (union_levels fs)"
        by (simp add: cols_def)
      have "list_all2 (\<lambda>f r. row_of_file t f (map (frame_value rows r) cols)) fs rows"
        using rel unfolding cols_def
        by (rule list_all2_mono) (rule row_of_file_cells [OF _ tc])
      then have "list_all2 (row_of_file t) fs (trows t)"
        by (simp add: t' list_all2_map2)
      moreover have "rows \<noteq> []"
        using False list_all2_lengthD [OF rel] by auto
      then have "\<not> df_empty t"
        by (simp add: df_empty_def t' cols_def)
      ultimately show ?thesis by simp
    qed
  qed
  have total: "\<exists>ws' t'. parse_method_directory (Some listing) info_column measure_type
      = (ws', Inr t')" if "list_all levels_convert fs"
    using that unfolding fs_def contributing_files_def by (rule parse_method_directory_total)
  have "(list_all levels_convert fs
      \<longrightarrow> (\<exists>ws' t'. parse_method_directory (Some listing) info_column measure_type
                     = (ws', Inr t') \<and>
                   list_all2 (row_of_file t') fs (trows t') \<and>
                   (fs \<noteq> [] \<longrightarrow> \<not> df_empty t'))) \<and>
   (parse_method_directory (Some listing) info_column measure_type = (ws, Inr t)
      \<longrightarrow> list_all2 (row_of_file t) fs (trows t) \<and> (fs \<noteq> [] \<longrightarrow> \<not> df_empty t))"
    using returned total by blast
  then show ?thesis unfolding fs_def .
qed

theorem one_row_per_contributing_file_witness:
  "parse_method_directory (Some example_listing) ''MEAN(area)'' ''cord''
     = ([Could_not_read ''sub-04_cord.csv''],
        Inr \<lparr>tcolumns = [''subject_id'', ''session_id'', ''level2'', ''level3'', ''level10''],
             trows = [[StrV ''01'', StrV [], FloatV 7, FloatV 8, NaNV],
                      [StrV ''02'', StrV ''1'', NaNV, FloatV 5, FloatV 4],
                      [StrV ''03'', StrV [], NaNV, NaNV, NaNV]]\<rparr>) \<and>
   map fst (contributing_files example_listing ''MEAN(area)'' ''cord'')
     = [''sub-01_cord.csv'', ''sub-02_ses-1_cord.csv'', ''sub-03_cord.csv''] \<and>
   map file_levels (contributing_files example_listing ''MEAN(area)'' ''cord'')
     = [[2, 3], [3, 10], []] \<and>
   list_all levels_convert (contributing_files example_listing ''MEAN(area)'' ''cord'') \<and>
   list_all2
     (row_of_file
        \<lparr>tcolumns = [''subject_id'', ''session_id'', ''level2'', ''level3'', ''level10''],
         trows = [[StrV ''01'', StrV [], FloatV 7, FloatV 8, NaNV],
                  [StrV ''02'', StrV ''1'', NaNV, FloatV 5, FloatV 4],
                  [StrV ''03'', StrV [], NaNV, NaNV, NaNV]]\<rparr>)
     (contributing_files example_listing ''MEAN(area)'' ''cord'')
     [[StrV ''01'', StrV [], FloatV 7, FloatV 8, NaNV],
      [StrV ''02'', StrV ''1'', NaNV, FloatV 5, FloatV 4],
      [StrV ''03'', StrV [], NaNV, NaNV, NaNV]]"
proof -
  have e: "parse_method_directory (Some example_listing) ''MEAN(area)'' ''cord''
     = ([Could_not_read ''sub-04_cord.csv''],
        Inr \<lparr>tcolumns = [''subject_id'', ''session_id'', ''level2'', ''level3'', ''level10''],
             trows = [[StrV ''01'', StrV [], FloatV 7, FloatV 8, NaNV],
                      [StrV ''02'', StrV ''1'', NaNV, FloatV 5, FloatV 4],
                      [StrV ''03'', StrV [], NaNV, NaNV, NaNV]]\<rparr>)"
    by code_simp
  have n: "map fst (contributing_files example_listing ''MEAN(area)'' ''cord'')
     = [''sub-01_cord.csv'', ''sub-02_ses-1_cord.csv'', ''sub-03_cord.csv'']"
    by code_simp
  have l: "map file_levels (contributing_files example_listing ''MEAN(area)'' ''cord'')
     = [[2, 3], [3, 10], []]"
    by code_simp
  have v: "list_all levels_convert (contributing_files example_listing ''MEAN(area)'' ''cord'')"
    by code_simp
  from one_row_per_contributing_file
    [of example_listing "''MEAN(area)''" "''cord''" "[Could_not_read ''sub-04_cord.csv'']"
      "\<lparr>tcolumns = [''subject_id'', ''session_id'', ''level2'', ''level3'', ''level10''],
         trows = [[StrV ''01'', StrV [], FloatV 7, FloatV 8, NaNV],
                  [StrV ''02'', StrV ''1'', NaNV, FloatV 5, FloatV 4],
                  [StrV ''03'', StrV [], NaNV, NaNV, NaNV]]\<rparr>"] e
  have
    "list_all2
     (row_of_file
        \<lparr>tcolumns = [''subject_id'', ''session_id'', ''level2'', ''level3'', ''level10''],
         trows = [[StrV ''01'', StrV [], FloatV 7, FloatV 8, NaNV],
                  [StrV ''02'', StrV ''1'', NaNV, FloatV 5, FloatV 4],
                  [StrV ''03'', StrV [], NaNV, NaNV, NaNV]]\<rparr>)
     (contributing_files example_listing ''MEAN(area)'' ''cord'')
     [[StrV ''01'', StrV [], FloatV 7, FloatV 8, NaNV],
      [StrV ''02'', StrV ''1'', NaNV, FloatV 5, FloatV 4],
      [StrV ''03'', StrV [], NaNV, NaNV, NaNV]]"
    by (simp only: table.simps)
  with e n l v show ?thesis by (intro conjI)
qed

subsection \<open>Rows without a positive level\<close>

lemma pivot_levels_skip:
  assumes "py_int (level_cell cols rec) = Inr n" and "n \<le> 0"
  shows "pivot_levels info cols (pre @ rec # post) row = pivot_levels info cols (pre @ post) row"
proof (induction pre arbitrary: row)
  case Nil
  then show ?case using assms by simp
next
  case (Cons a pre)
  then show ?case by (simp split: sum.splits)
qed

lemma file_equiv_refl: "file_equiv info x x"
  by (simp add: file_equiv_def split: option.splits)

lemma parse_files_equiv:
  "list_all2 (file_equiv info) fs fs' \<Longrightarrow>
   parse_files info pat fs ws rows = parse_files info pat fs' ws rows"
proof (induction arbitrary: ws rows rule: list_all2_induct)
  case Nil
  then show ?case by simp
next
  case (Cons f fs f' fs')
  obtain fname c where f: "f = (fname, c)" by (cases f)
  obtain fname' c' where f': "f' = (fname', c')" by (cases f')
  from Cons.hyps(1) have n: "fname' = fname"
    by (simp add: file_equiv_def f f')
  show ?case
  proof (cases c)
    case None
    then have "c' = None" using Cons.hyps(1) by (simp add: file_equiv_def f f' split: option.splits)
    then show ?thesis using None Cons.IH by (simp add: f f' n)
  next
    case (Some d)
    then obtain d' where d': "c' = Some d'" "columns d = columns d'"
      "\<And>row. pivot_levels info (columns d) (records d) row
          = pivot_levels info (columns d') (records d') row"
      using Cons.hyps(1) by (auto simp: file_equiv_def f f' split: option.splits)
    have p: "pivot_levels info (columns d') (records d) row
        = pivot_levels info (columns d') (records d') row" for row
      using d'(3) [of row] by (simp only: d'(2))
    show ?thesis
      by (simp add: f f' n Some d'(1) d'(2) p Cons.IH split: prod.splits sum.splits)
  qed
qed

lemma insort_key_equiv:
  assumes "list_all2 R xs ys" and "R x y" and "\<And>a b. R a b \<Longrightarrow> fst a = fst b"
  shows "list_all2 R (insort_key fst x xs) (insort_key fst y ys)"
  using assms(1)
proof (induction rule: list_all2_induct)
  case Nil
  then show ?case using assms(2) by simp
next
  case (Cons a xs b ys)
  then show ?case using assms(2) assms(3) [OF assms(2)] assms(3) [OF Cons.hyps(1)] by simp
qed

lemma sort_key_equiv:
  assumes "list_all2 R xs ys" and "\<And>a b. R a b \<Longrightarrow> fst a = fst b"
  shows "list_all2 R (sort_key fst xs) (sort_key fst ys)"
  using assms(1)
proof (induction rule: list_all2_induct)
  case Nil
  then show ?case by simp
next
  case (Cons a xs b ys)
  then show ?case by (simp add: insort_key_equiv assms(2))
qed

text \<open>
  Claim C7, as stated, fails for a level that does not convert to an integer: \<open>int\<close>
  raises, nothing catches it, and the call ends with the error instead of a table. With
  the row left out the same file gives a table.
\<close>

theorem unparsable_level_counterexample:
  "py_int (level_cell [''Filename'', ''VertLevel'', ''MEAN(area)'']
             (csv_row (StrV ''abc'') (FloatV 7)))
     = Inl ValueError \<and>
   parse_method_directory (Some unparsable_listing) ''MEAN(area)'' ''cord''
     = ([], Inl ValueError) \<and>
   parse_method_directory (Some unparsable_removed_listing) ''MEAN(area)'' ''cord''
     = ([], Inr \<lparr>tcolumns = [''subject_id'', ''session_id'', ''level3''],
                 trows = [[StrV ''01'', StrV [], FloatV 8]]\<rparr>)"
  by code_simp

text \<open>
  Claim C7, amended. A data row whose level value converts to an integer that is not
  positive (the default \<open>-1\<close> of a file with neither level column included) is ignored
  without a trace: warnings, error or table are those of the same directory with the row
  left out of its file.
\<close>

theorem nonpositive_level_ignored:
  assumes "py_int (level_cell (columns df) rec) = Inr n" and "n \<le> 0"
  shows "parse_method_directory
           (Some (before @ (fname, Some (df\<lparr>records := pre @ rec # post\<rparr>)) # after))
           info_column measure_type
       = parse_method_directory
           (Some (before @ (fname, Some (df\<lparr>records := pre @ post\<rparr>)) # after))
           info_column measure_type"
proof -
  let ?x = "(fname, Some (df\<lparr>records := pre @ rec # post\<rparr>))"
  let ?y = "(fname, Some (df\<lparr>records := pre @ post\<rparr>))"
  have "file_equiv info_column ?x ?y"
    using pivot_levels_skip [OF assms] by (simp add: file_equiv_def)
  then have "list_all2 (file_equiv info_column) (before @ ?x # after) (before @ ?y # after)"
    by (simp add: list_all2_appendI list_all2_refl file_equiv_refl)
  then have "list_all2 (file_equiv info_column)
      (sort_key fst (before @ ?x # after)) (sort_key fst (before @ ?y # after))"
    by (rule sort_key_equiv) (simp add: file_equiv_def)
  then have "parse_files info_column pat (sort_key fst (before @ ?x # after)) [] []
      = parse_files info_column pat (sort_key fst (before @ ?y # after)) [] []" for pat
    by (rule parse_files_equiv)
  then show ?thesis
    unfolding parse_method_directory_def Let_def option.case by (simp only:)
qed

theorem nonpositive_level_ignored_witness:
  "py_int (level_cell (columns (csv_frame [])) (csv_row (IntV 0) (FloatV 9))) = Inr 0 \<and>
   (0::int) \<le> 0 \<and>
   parse_method_directory
     (Some ([] @ (''sub-02_cord.csv'',
                  Some ((csv_frame [])\<lparr>records :=
                     [csv_row (IntV 3) (FloatV 5)] @ csv_row (IntV 0) (FloatV 9) # []\<rparr>)) # []))
     ''MEAN(area)'' ''cord''
   = parse_method_directory
     (Some ([] @ (''sub-02_cord.csv'',
                  Some ((csv_frame [])\<lparr>records := [csv_row (IntV 3) (FloatV 5)] @ []\<rparr>)) # []))
     ''MEAN(area)'' ''cord''"
proof -
  have h: "py_int (level_cell (columns (csv_frame [])) (csv_row (IntV 0) (FloatV 9))) = Inr 0"
    by (simp add: level_cell_def record_get_def csv_frame_def csv_row_def)
  have z: "(0::int) \<le> 0" by simp
  from h z nonpositive_level_ignored [OF h z] show ?thesis by (intro conjI)
qed

subsection \<open>Two conversions at concrete inputs\<close>

text \<open>
  \<open>int\<close> does not strip the separator 0x1C, and an integer value in a column with a
  missing entry comes back as a float.
\<close>

lemma py_int_separator_raises: "py_int (StrV [CHR 0x1C, CHR ''0'']) = Inl ValueError"
  by code_simp

lemma build_table_integer_value:
  "build_table
     [[(''subject_id'', StrV ''01''), (''session_id'', StrV []), (''level2'', IntV 7)],
      [(''subject_id'', StrV ''02''), (''session_id'', StrV [])]]
   = Inr \<lparr>tcolumns = [''subject_id'', ''session_id'', ''level2''],
          trows = [[StrV ''01'', StrV [], FloatV 7], [StrV ''02'', StrV [], NaNV]]\<rparr>"
  by code_simp

end
